theory Spec2Isabelle
  imports Main
begin

section \<open>Python values used by the editing core\<close>

text \<open>
  Text is a Python \<open>str\<close>; it is modelled as a \<open>string\<close>, one \<open>char\<close> per
  character (the code points below 256). Positions are Python integers, so they are
  \<open>int\<close>: a negative position is a value the code can receive and has to reject.

  The wall-clock fields (\<open>_created_time\<close>, \<open>_modified_time\<close>, the \<open>timestamp\<close> of a
  validation result) and the descriptions of commands (texts built once by the
  constructors) are not represented: nothing in the editing core reads them.
\<close>

text \<open>The two exceptions \<open>Document\<close> raises, and \<open>IndexError\<close> of a list subscript.\<close>

datatype error = RuntimeError | ValueError | IndexError

text \<open>
  A slice bound \<open>i\<close> of a sequence of length \<open>n\<close>: a negative bound counts from the
  end, and every bound is clipped to \<open>0..n\<close>.
\<close>

definition clamp_index :: "int \<Rightarrow> nat \<Rightarrow> nat" where
  "clamp_index i n = (if i < 0 then nat (max (i + int n) 0) else min (nat i) n)"

text \<open>\<open>xs[a:b]\<close>, \<open>xs[:b]\<close> and \<open>xs[a:]\<close>.\<close>

definition slice :: "'a list \<Rightarrow> int \<Rightarrow> int \<Rightarrow> 'a list" where
  "slice xs a b =
     (let lo = clamp_index a (length xs); hi = clamp_index b (length xs)
      in take (hi - lo) (drop lo xs))"

definition slice_to :: "'a list \<Rightarrow> int \<Rightarrow> 'a list" where
  "slice_to xs b = take (clamp_index b (length xs)) xs"

definition slice_from :: "'a list \<Rightarrow> int \<Rightarrow> 'a list" where
  "slice_from xs a = drop (clamp_index a (length xs)) xs"

text \<open>\<open>xs[i]\<close>: a negative index counts from the end; out of range raises.\<close>

definition subscript :: "'a list \<Rightarrow> int \<Rightarrow> error + 'a" where
  "subscript xs i =
     (let n = int (length xs); j = (if i < 0 then i + n else i)
      in if 0 \<le> j \<and> j < n then Inr (xs ! nat j) else Inl IndexError)"

text \<open>
  \<open>str.isspace\<close> on one character, and \<open>str.strip()\<close>: the whitespace characters
  below 256 are the code points 9 to 13, 28 to 32, 133 and 160.
\<close>

definition isspace :: "char \<Rightarrow> bool" where
  "isspace c =
     (let k = (of_char c :: nat)
      in (9 \<le> k \<and> k \<le> 13) \<or> (28 \<le> k \<and> k \<le> 32) \<or> k = 133 \<or> k = 160)"

definition strip :: "string \<Rightarrow> string" where
  "strip s = rev (dropWhile isspace (rev (dropWhile isspace s)))"

section \<open>Events, validation results and observers\<close>

text \<open>The \<open>data\<close> dictionary of an event, one constructor per shape the document sends.\<close>

datatype event_data =
    FullReplace string string
  | InsertData int string int
  | DeleteData int int string int
  | LoadedData string int
  | SavedData "string option" int
  | EmptyData

text \<open>
  What \<open>json.loads\<close> does with a text: it returns, raises \<open>JSONDecodeError\<close> (with
  \<open>msg\<close>, \<open>lineno\<close>, \<open>colno\<close>, \<open>pos\<close>), or raises another exception (with its text).
  The parser is Python's standard library, not code of this repository: every
  function below that reaches it takes it as the parameter \<open>loads\<close>.
\<close>

datatype loads_outcome =
    Parsed
  | JSONDecodeError string int int int
  | OtherException string

type_synonym json_loads = "string \<Rightarrow> loads_outcome"

text \<open>
  The message of a validation result. The source builds Ukrainian texts; each
  constructor stands for one of them: "the document is empty", "the JSON syntax is
  correct", "JSON error on line \<open>lineno\<close>, position \<open>colno\<close>", and "validation error:"
  followed by the exception's text.
\<close>

datatype message =
    DocumentEmpty
  | SyntaxCorrect
  | JsonErrorAt int int
  | ValidationError string

text \<open>
  An entry of \<open>errors\<close>: the dictionary with \<open>line\<close>, \<open>column\<close>, \<open>message\<close> and
  \<open>position\<close>, or the one with \<open>message\<close> alone.
\<close>

datatype error_entry =
    DecodeError int int string int
  | PlainError string

record validation_result =
  is_valid :: bool
  message :: message
  errors :: "error_entry list"

text \<open>
  \<open>ValidatorObserver\<close> is modelled field by field. Every other \<open>Observer\<close> is seen
  the way \<open>Subject.notify\<close> sees it: its \<open>update\<close> returns or raises an
  \<open>Exception\<close>; \<open>Other raises\<close> raises exactly when \<open>raises content event_type data\<close>
  holds. \<open>StatusObserver\<close> and \<open>AutosaveObserver\<close> are \<open>Other (\<lambda>_ _ _. False)\<close>: they
  never raise out of \<open>update\<close> and write only to their own bookkeeping and to the
  autosave file, never to the document.
\<close>

record validator_observer =
  auto_validate :: bool
  last_result :: "validation_result option"
  validation_count :: int

datatype observer_impl =
    Validator validator_observer
  | Other "string \<Rightarrow> string \<Rightarrow> event_data \<Rightarrow> bool"

record observer =
  name :: string
  enabled :: bool
  impl :: observer_impl

section \<open>The document\<close>

text \<open>
  \<open>observers\<close> is \<open>Subject._observers\<close>. \<open>delivered\<close> is not a field of the source: it
  records every call of \<open>Observer.update\<close> the subject has made, in order, as the
  position of the listener in \<open>observers\<close> with the event type and data it was given.
\<close>

record document =
  filepath :: "string option"
  content :: string
  modified :: bool
  read_only :: bool
  edit_count :: int
  last_validation_result :: "validation_result option"
  observers :: "observer list"
  delivered :: "(nat \<times> string \<times> event_data) list"

text \<open>\<open>Document(filepath, content)\<close>.\<close>

definition new_document :: "string option \<Rightarrow> string \<Rightarrow> document" where
  "new_document fp c =
     \<lparr>filepath = fp, content = c, modified = False, read_only = False, edit_count = 0,
      last_validation_result = None, observers = [], delivered = []\<rparr>"

subsection \<open>The validation listener\<close>

text \<open>
  \<open>ValidatorObserver.validate\<close>: the stripped content decides. The result is stored
  in the observer and written onto the document by \<open>set_validation_result\<close>.
\<close>

definition set_validation_result :: "document \<Rightarrow> validation_result \<Rightarrow> document" where
  "set_validation_result d r = d\<lparr>last_validation_result := Some r\<rparr>"

definition validate ::
  "json_loads \<Rightarrow> validator_observer \<Rightarrow> document
     \<Rightarrow> validation_result \<times> validator_observer \<times> document" where
  "validate loads v d =
     (let c = strip (content d) in
      if c = [] then
        (let r = \<lparr>is_valid = True, message = DocumentEmpty, errors = []\<rparr>
         in (r, v\<lparr>last_result := Some r, validation_count := validation_count v + 1\<rparr>,
             set_validation_result d r))
      else
        (let r = (case loads c of
                    Parsed \<Rightarrow> \<lparr>is_valid = True, message = SyntaxCorrect, errors = []\<rparr>
                  | JSONDecodeError msg lineno colno pos \<Rightarrow>
                      \<lparr>is_valid = False, message = JsonErrorAt lineno colno,
                       errors = [DecodeError lineno colno msg pos]\<rparr>
                  | OtherException txt \<Rightarrow>
                      \<lparr>is_valid = False, message = ValidationError txt,
                       errors = [PlainError txt]\<rparr>)
         in (r, v\<lparr>last_result := Some r, validation_count := validation_count v + 1\<rparr>,
             set_validation_result d r)))"

subsection \<open>Delivery of events\<close>

datatype update_outcome = Returned | Raised

text \<open>\<open>Observer.update(document, event_type, data)\<close> for the two kinds of listener.\<close>

definition update ::
  "json_loads \<Rightarrow> observer \<Rightarrow> document \<Rightarrow> string \<Rightarrow> event_data
     \<Rightarrow> update_outcome \<times> observer \<times> document" where
  "update loads ob d event_type data =
     (case impl ob of
        Validator v \<Rightarrow>
          (if event_type = ''content_changed'' \<and> auto_validate v
           then (case validate loads v d of
                   (r, v', d') \<Rightarrow> (Returned, ob\<lparr>impl := Validator v'\<rparr>, d'))
           else (Returned, ob, d))
      | Other raises \<Rightarrow>
          (if raises (content d) event_type data then (Raised, ob, d) else (Returned, ob, d)))"

text \<open>
  The loop of \<open>Subject.notify\<close>: \<open>todo\<close> is what is left of \<open>self._observers\<close> and \<open>i\<close>
  the position of its head. A disabled listener is skipped. An enabled one is called
  inside \<open>try\<close>; whatever it raises is printed and dropped, and the loop goes on.
\<close>

fun notify_loop ::
  "json_loads \<Rightarrow> string \<Rightarrow> event_data \<Rightarrow> observer list \<Rightarrow> nat \<Rightarrow> document \<Rightarrow> document" where
  "notify_loop loads event_type data [] i d = d"
| "notify_loop loads event_type data (ob # todo) i d =
     (if enabled ob then
        (case update loads ob d event_type data of
           (outcome, ob', d') \<Rightarrow>
             notify_loop loads event_type data todo (Suc i)
               (d'\<lparr>observers := (observers d')[i := ob'],
                   delivered := delivered d' @ [(i, event_type, data)]\<rparr>))
      else notify_loop loads event_type data todo (Suc i) d)"

definition notify :: "json_loads \<Rightarrow> document \<Rightarrow> string \<Rightarrow> event_data \<Rightarrow> document" where
  "notify loads d event_type data = notify_loop loads event_type data (observers d) 0 d"

subsection \<open>The operations of \<open>Document\<close>\<close>

text \<open>
  An operation returns what the call did (\<open>Inl\<close> the exception raised, \<open>Inr\<close> the
  value returned) together with the document as the call left it.
\<close>

definition set_content ::
  "json_loads \<Rightarrow> document \<Rightarrow> string \<Rightarrow> bool \<Rightarrow> (error + unit) \<times> document" where
  "set_content loads d new_content notify_flag =
     (if read_only d then (Inl RuntimeError, d)
      else
        (let old_content = content d;
             d1 = d\<lparr>content := new_content, modified := True, edit_count := edit_count d + 1\<rparr>
         in (Inr (),
             if notify_flag
             then notify loads d1 ''content_changed'' (FullReplace old_content new_content)
             else d1)))"

definition insert_doc ::
  "json_loads \<Rightarrow> document \<Rightarrow> int \<Rightarrow> string \<Rightarrow> bool \<Rightarrow> (error + unit) \<times> document" where
  "insert_doc loads d position txt notify_flag =
     (if read_only d then (Inl RuntimeError, d)
      else if position < 0 \<or> position > int (length (content d)) then (Inl ValueError, d)
      else
        (let d1 = d\<lparr>content := slice_to (content d) position @ txt @ slice_from (content d) position,
                     modified := True, edit_count := edit_count d + 1\<rparr>
         in (Inr (),
             if notify_flag
             then notify loads d1 ''content_changed''
                    (InsertData position txt (int (length txt)))
             else d1)))"

definition delete_doc ::
  "json_loads \<Rightarrow> document \<Rightarrow> int \<Rightarrow> int \<Rightarrow> bool \<Rightarrow> (error + unit) \<times> document" where
  "delete_doc loads d start end notify_flag =
     (if read_only d then (Inl RuntimeError, d)
      else if start < 0 \<or> end > int (length (content d)) \<or> start > end then (Inl ValueError, d)
      else
        (let deleted_text = slice (content d) start end;
             d1 = d\<lparr>content := slice_to (content d) start @ slice_from (content d) end,
                     modified := True, edit_count := edit_count d + 1\<rparr>
         in (Inr (),
             if notify_flag
             then notify loads d1 ''content_changed''
                    (DeleteData start end deleted_text (int (length deleted_text)))
             else d1)))"

text \<open>\<open>get_text\<close> only reads the document.\<close>

definition get_text :: "document \<Rightarrow> int \<Rightarrow> int \<Rightarrow> error + string" where
  "get_text d start end =
     (if start < 0 \<or> end > int (length (content d)) \<or> start > end then Inl ValueError
      else Inr (slice (content d) start end))"

definition load_from_file ::
  "json_loads \<Rightarrow> document \<Rightarrow> string \<Rightarrow> string \<Rightarrow> (error + unit) \<times> document" where
  "load_from_file loads d path new_content =
     (let d1 = d\<lparr>filepath := Some path, content := new_content, modified := False\<rparr>
      in (Inr (), notify loads d1 ''loaded'' (LoadedData path (int (length new_content)))))"

text \<open>\<open>mark_as_saved(filepath)\<close>: \<open>None\<close> and the empty path leave the path as it is.\<close>

definition mark_as_saved ::
  "json_loads \<Rightarrow> document \<Rightarrow> string option \<Rightarrow> (error + unit) \<times> document" where
  "mark_as_saved loads d path =
     (let d1 = (case path of
                  None \<Rightarrow> d
                | Some p \<Rightarrow> if p = [] then d else d\<lparr>filepath := Some p\<rparr>);
          d2 = d1\<lparr>modified := False\<rparr>
      in (Inr (), notify loads d2 ''saved''
                    (SavedData (filepath d2) (int (length (content d2))))))"

definition clear :: "json_loads \<Rightarrow> document \<Rightarrow> bool \<Rightarrow> (error + unit) \<times> document" where
  "clear loads d notify_flag = set_content loads d [] notify_flag"

text \<open>\<open>reset\<close> is for a document with no file (\<open>is_new\<close>).\<close>

definition is_new :: "document \<Rightarrow> bool" where
  "is_new d = (filepath d = None)"

definition reset :: "json_loads \<Rightarrow> document \<Rightarrow> (error + unit) \<times> document" where
  "reset loads d =
     (if \<not> is_new d then (Inl RuntimeError, d)
      else
        (let d1 = d\<lparr>content := [], modified := False, edit_count := 0,
                     last_validation_result := None\<rparr>
         in (Inr (), notify loads d1 ''reset'' EmptyData)))"

section \<open>Reversible commands\<close>

text \<open>
  A command is an \<open>InsertCommand\<close> (position, text, \<open>_executed\<close>), a \<open>DeleteCommand\<close>
  (start, end, \<open>_deleted_text\<close>, \<open>_executed\<close>) or a \<open>CompositeCommand\<close> (its children,
  \<open>_executed\<close>). A command acts on the document it was built for; the functions below
  take that document and return it with the command as the call left them.
\<close>

datatype command =
    InsertCommand int string bool
  | DeleteCommand int int string bool
  | CompositeCommand "command list" bool

text \<open>
  \<open>execute()\<close>. \<open>InsertCommand\<close> and \<open>DeleteCommand\<close> turn any exception of the
  document into the result \<open>False\<close>; \<open>DeleteCommand\<close> has stored the text it read by
  then. \<open>execute_children\<close> is the loop of \<open>CompositeCommand.execute\<close>: it stops at the
  first child that fails and leaves the later children untouched.
\<close>

fun command_execute :: "json_loads \<Rightarrow> command \<Rightarrow> document \<Rightarrow> bool \<times> command \<times> document"
  and execute_children ::
    "json_loads \<Rightarrow> command list \<Rightarrow> document \<Rightarrow> bool \<times> command list \<times> document" where
  "command_execute loads (InsertCommand position txt executed) d =
     (case insert_doc loads d position txt True of
        (Inr u, d') \<Rightarrow> (True, InsertCommand position txt True, d')
      | (Inl e, d') \<Rightarrow> (False, InsertCommand position txt executed, d'))"
| "command_execute loads (DeleteCommand start_position end_position deleted_text executed) d =
     (case get_text d start_position end_position of
        Inl e \<Rightarrow> (False, DeleteCommand start_position end_position deleted_text executed, d)
      | Inr t \<Rightarrow>
          (case delete_doc loads d start_position end_position True of
             (Inr u, d') \<Rightarrow> (True, DeleteCommand start_position end_position t True, d')
           | (Inl e, d') \<Rightarrow> (False, DeleteCommand start_position end_position t executed, d')))"
| "command_execute loads (CompositeCommand commands executed) d =
     (case execute_children loads commands d of
        (success, commands', d') \<Rightarrow>
          (success, CompositeCommand commands' (if success then True else executed), d'))"
| "execute_children loads [] d = (True, [], d)"
| "execute_children loads (c # cs) d =
     (case command_execute loads c d of
        (ok, c', d') \<Rightarrow>
          (if \<not> ok then (False, c' # cs, d')
           else (case execute_children loads cs d' of
                   (success, cs', d'') \<Rightarrow> (success, c' # cs', d''))))"

text \<open>
  \<open>undo()\<close>. \<open>undo_children\<close> is the loop of \<open>CompositeCommand.undo\<close> over
  \<open>reversed(self._commands)\<close>: the children after \<open>c\<close> are undone before \<open>c\<close>, and the
  first failure ends the loop.
\<close>

fun command_undo :: "json_loads \<Rightarrow> command \<Rightarrow> document \<Rightarrow> bool \<times> command \<times> document"
  and undo_children ::
    "json_loads \<Rightarrow> command list \<Rightarrow> document \<Rightarrow> bool \<times> command list \<times> document" where
  "command_undo loads (InsertCommand position txt executed) d =
     (let end_position = position + int (length txt) in
      case delete_doc loads d position end_position True of
        (Inr u, d') \<Rightarrow> (True, InsertCommand position txt False, d')
      | (Inl e, d') \<Rightarrow> (False, InsertCommand position txt executed, d'))"
| "command_undo loads (DeleteCommand start_position end_position deleted_text executed) d =
     (case insert_doc loads d start_position deleted_text True of
        (Inr u, d') \<Rightarrow> (True, DeleteCommand start_position end_position deleted_text False, d')
      | (Inl e, d') \<Rightarrow> (False, DeleteCommand start_position end_position deleted_text executed, d'))"
| "command_undo loads (CompositeCommand commands executed) d =
     (case undo_children loads commands d of
        (success, commands', d') \<Rightarrow>
          (success, CompositeCommand commands' (if success then False else executed), d'))"
| "undo_children loads [] d = (True, [], d)"
| "undo_children loads (c # cs) d =
     (case undo_children loads cs d of
        (ok, cs', d') \<Rightarrow>
          (if \<not> ok then (False, c # cs', d')
           else (case command_undo loads c d' of
                   (success, c', d'') \<Rightarrow> (success, c' # cs', d''))))"

section \<open>The history manager\<close>

text \<open>
  \<open>CommandManager\<close>: the history, the cursor and the bound. The history holds the
  commands as they are after their last call; every command object is taken to
  stand in it once, as \<open>Editor\<close> builds a new command for every edit.
\<close>

record command_manager =
  history :: "command list"
  current_index :: int
  max_history :: int

text \<open>
  \<open>CommandManager(max_history)\<close>: \<open>max_history or Config.MAX_UNDO_HISTORY\<close>, so \<open>None\<close>
  and \<open>0\<close> give the configured 100.
\<close>

definition MAX_UNDO_HISTORY :: int where
  "MAX_UNDO_HISTORY = 100"

definition new_manager :: "int option \<Rightarrow> command_manager" where
  "new_manager m =
     \<lparr>history = [], current_index = - 1,
      max_history = (case m of None \<Rightarrow> MAX_UNDO_HISTORY
                     | Some k \<Rightarrow> if k = 0 then MAX_UNDO_HISTORY else k)\<rparr>"

definition can_undo :: "command_manager \<Rightarrow> bool" where
  "can_undo m = (current_index m \<ge> 0)"

definition can_redo :: "command_manager \<Rightarrow> bool" where
  "can_redo m = (current_index m < int (length (history m)) - 1)"

definition execute ::
  "json_loads \<Rightarrow> command_manager \<Rightarrow> command \<Rightarrow> document
     \<Rightarrow> bool \<times> command_manager \<times> document" where
  "execute loads m c d =
     (case command_execute loads c d of
        (ok, c', d') \<Rightarrow>
          if \<not> ok then (False, m, d')
          else
            (let h1 = (if current_index m < int (length (history m)) - 1
                       then slice_to (history m) (current_index m + 1) else history m);
                 h2 = h1 @ [c'];
                 i2 = current_index m + 1
             in if int (length h2) > max_history m
                then (let removed_count = int (length h2) - max_history m
                      in (True,
                          m\<lparr>history := slice_from h2 removed_count,
                            current_index := i2 - removed_count\<rparr>, d'))
                else (True, m\<lparr>history := h2, current_index := i2\<rparr>, d')))"

text \<open>
  \<open>undo()\<close> and \<open>redo()\<close>: the command under the cursor is changed in place by its
  own \<open>undo\<close> or \<open>execute\<close>, whatever that returns. The subscript raises \<open>IndexError\<close>
  when the cursor is outside the list.
\<close>

definition store :: "'a list \<Rightarrow> int \<Rightarrow> 'a \<Rightarrow> 'a list" where
  "store xs i x = xs[nat (if i < 0 then i + int (length xs) else i) := x]"

definition undo ::
  "json_loads \<Rightarrow> command_manager \<Rightarrow> document \<Rightarrow> (error + bool) \<times> command_manager \<times> document" where
  "undo loads m d =
     (if \<not> can_undo m then (Inr False, m, d)
      else (case subscript (history m) (current_index m) of
              Inl e \<Rightarrow> (Inl e, m, d)
            | Inr c \<Rightarrow>
                (case command_undo loads c d of
                   (ok, c', d') \<Rightarrow>
                     (let m1 = m\<lparr>history := store (history m) (current_index m) c'\<rparr>
                      in if ok then (Inr True, m1\<lparr>current_index := current_index m - 1\<rparr>, d')
                         else (Inr False, m1, d')))))"

definition redo ::
  "json_loads \<Rightarrow> command_manager \<Rightarrow> document \<Rightarrow> (error + bool) \<times> command_manager \<times> document" where
  "redo loads m d =
     (if \<not> can_redo m then (Inr False, m, d)
      else (case subscript (history m) (current_index m + 1) of
              Inl e \<Rightarrow> (Inl e, m, d)
            | Inr c \<Rightarrow>
                (case command_execute loads c d of
                   (ok, c', d') \<Rightarrow>
                     (let m1 = m\<lparr>history := store (history m) (current_index m + 1) c'\<rparr>
                      in if ok then (Inr True, m1\<lparr>current_index := current_index m + 1\<rparr>, d')
                         else (Inr False, m1, d')))))"

definition clear_history :: "command_manager \<Rightarrow> command_manager" where
  "clear_history m = m\<lparr>history := [], current_index := - 1\<rparr>"

section \<open>Sequences of document operations\<close>

text \<open>
  The calls a client can make on a document, and what a sequence of them leaves
  behind. A call that raises leaves the document as it was, and the next call
  goes on from there.
\<close>

datatype operation =
    Insert int string bool
  | Delete int int bool
  | SetContent string bool
  | Clear bool
  | LoadFromFile string string
  | MarkAsSaved "string option"
  | Reset
  | Execute command
  | Undo command

fun apply_operation :: "json_loads \<Rightarrow> operation \<Rightarrow> document \<Rightarrow> document" where
  "apply_operation loads (Insert position t n) d = snd (insert_doc loads d position t n)"
| "apply_operation loads (Delete start finish n) d = snd (delete_doc loads d start finish n)"
| "apply_operation loads (SetContent c n) d = snd (set_content loads d c n)"
| "apply_operation loads (Clear n) d = snd (clear loads d n)"
| "apply_operation loads (LoadFromFile path c) d = snd (load_from_file loads d path c)"
| "apply_operation loads (MarkAsSaved path) d = snd (mark_as_saved loads d path)"
| "apply_operation loads Reset d = snd (reset loads d)"
| "apply_operation loads (Execute c) d = snd (snd (command_execute loads c d))"
| "apply_operation loads (Undo c) d = snd (snd (command_undo loads c d))"

fun apply_operations :: "json_loads \<Rightarrow> operation list \<Rightarrow> document \<Rightarrow> document" where
  "apply_operations loads [] d = d"
| "apply_operations loads (x # xs) d = apply_operations loads xs (apply_operation loads x d)"


text \<open>
  The number of \<open>InsertCommand\<close>s and \<open>DeleteCommand\<close>s a command is made of: each
  is one call of \<open>Document.insert\<close> or \<open>Document.delete\<close> when the command is executed
  or undone.
\<close>

fun primitive_commands :: "command \<Rightarrow> nat" where
  "primitive_commands (InsertCommand position tx executed) = 1"
| "primitive_commands (DeleteCommand start_position end_position deleted_text executed) = 1"
| "primitive_commands (CompositeCommand commands executed) = sum_list (map primitive_commands commands)"

section \<open>The invariant of the history\<close>

text \<open>
  The cursor is \<open>-1\<close> or the position of a command in the history, and the history
  is no longer than the bound.
\<close>

definition history_invariant :: "command_manager \<Rightarrow> bool" where
  "history_invariant m =
     (- 1 \<le> current_index m \<and> current_index m \<le> int (length (history m)) - 1 \<and>
      int (length (history m)) \<le> max_history m)"


section \<open>What a notification leaves alone\<close>

text \<open>
  A listener's \<open>update\<close> writes at most the last validation result of the document
  and the listener's own fields; it does not change whether the listener is enabled.
\<close>

lemma update_frame:
  assumes "update loads ob d ev data = (r, ob', d')"
  shows "content d' = content d" "read_only d' = read_only d" "modified d' = modified d"
    "edit_count d' = edit_count d" "filepath d' = filepath d" "observers d' = observers d"
    "delivered d' = delivered d" "enabled ob' = enabled ob"
  using assms
  by (auto simp: update_def validate_def set_validation_result_def Let_def
      split: observer_impl.splits if_splits prod.splits)

lemma notify_loop_frame:
  "content (notify_loop loads ev data todo i d) = content d \<and>
   read_only (notify_loop loads ev data todo i d) = read_only d \<and>
   modified (notify_loop loads ev data todo i d) = modified d \<and>
   edit_count (notify_loop loads ev data todo i d) = edit_count d \<and>
   filepath (notify_loop loads ev data todo i d) = filepath d \<and>
   length (observers (notify_loop loads ev data todo i d)) = length (observers d)"
proof (induction todo arbitrary: i d)
  case Nil
  show ?case by simp
next
  case (Cons ob todo)
  show ?case
  proof (cases "enabled ob")
    case False
    then show ?thesis using Cons.IH by simp
  next
    case True
    obtain r ob' d' where u: "update loads ob d ev data = (r, ob', d')"
      by (cases "update loads ob d ev data") auto
    show ?thesis using True u update_frame[OF u] Cons.IH by simp
  qed
qed

lemma notify_loop_delivered:
  "delivered (notify_loop loads ev data todo i d) =
     delivered d @ map (\<lambda>j. (j, ev, data)) (filter (\<lambda>j. enabled (todo ! (j - i))) [i..<i + length todo])"
proof (induction todo arbitrary: i d)
  case Nil
  show ?case by simp
next
  case (Cons ob todo)
  have shift: "filter (\<lambda>j. enabled ((ob # todo) ! (j - i))) [Suc i..<Suc i + length todo]
      = filter (\<lambda>j. enabled (todo ! (j - Suc i))) [Suc i..<Suc i + length todo]"
  proof (rule filter_cong)
    fix j assume "j \<in> set [Suc i..<Suc i + length todo]"
    then have "j - i = Suc (j - Suc i)" by auto
    then show "enabled ((ob # todo) ! (j - i)) = enabled (todo ! (j - Suc i))" by simp
  qed simp
  have upt: "[i..<i + length (ob # todo)] = i # [Suc i..<Suc i + length todo]"
    using upt_conv_Cons[of i "Suc (i + length todo)"] by (simp del: upt_Suc)
  show ?case
  proof (cases "enabled ob")
    case False
    then show ?thesis using Cons.IH[of "Suc i" d] shift upt by simp
  next
    case True
    obtain r ob' d' where u: "update loads ob d ev data = (r, ob', d')"
      by (cases "update loads ob d ev data") auto
    show ?thesis using True u update_frame[OF u] Cons.IH shift upt by simp
  qed
qed

lemma notify_frame:
  "content (notify loads d ev data) = content d"
  "read_only (notify loads d ev data) = read_only d"
  "modified (notify loads d ev data) = modified d"
  "edit_count (notify loads d ev data) = edit_count d"
  "filepath (notify loads d ev data) = filepath d"
  "length (observers (notify loads d ev data)) = length (observers d)"
  by (simp_all add: notify_def notify_loop_frame)

lemma notify_delivered:
  "delivered (notify loads d ev data) =
     delivered d @ map (\<lambda>j. (j, ev, data))
       (filter (\<lambda>j. enabled (observers d ! j)) [0..<length (observers d)])"
  by (simp add: notify_def notify_loop_delivered)

text \<open>Slices whose bounds are not negative are \<open>take\<close> and \<open>drop\<close>.\<close>

lemma slice_to_take: "0 \<le> b \<Longrightarrow> slice_to xs b = take (nat b) xs"
  by (simp add: slice_to_def clamp_index_def min_def)

lemma slice_from_drop: "0 \<le> a \<Longrightarrow> slice_from xs a = drop (nat a) xs"
  by (simp add: slice_from_def clamp_index_def min_def)

lemma slice_take_drop:
  "0 \<le> a \<Longrightarrow> a \<le> b \<Longrightarrow> slice xs a b = take (nat b - nat a) (drop (nat a) xs)"
  by (auto simp: slice_def clamp_index_def Let_def min_def)

section \<open>What a notification does to the listeners\<close>


lemma validate_reads_content:
  "content d1 = content d2 \<Longrightarrow> fst (validate loads v1 d1) = fst (validate loads v2 d2)"
  by (simp add: validate_def Let_def)



lemma update_validation:
  "update loads ob d ev data = (r, ob', d') \<Longrightarrow>
     last_validation_result d' =
       (if ev = ''content_changed'' \<and> (\<exists>v. impl ob = Validator v \<and> auto_validate v)
        then Some (fst (validate loads v0 d)) else last_validation_result d)"
  using validate_reads_content[of d d loads _ v0]
  by (auto simp: update_def validate_def set_validation_result_def Let_def
      split: observer_impl.splits if_splits prod.splits)

lemma notify_loop_validation:
  "last_validation_result (notify_loop loads ev data todo i d) =
     (if ev = ''content_changed'' \<and>
         (\<exists>ob \<in> set todo. enabled ob \<and> (\<exists>v. impl ob = Validator v \<and> auto_validate v))
      then Some (fst (validate loads v0 d)) else last_validation_result d)"
proof (induction todo arbitrary: i d)
  case Nil
  show ?case by simp
next
  case (Cons ob todo)
  show ?case
  proof (cases "enabled ob")
    case False
    then show ?thesis using Cons.IH[of "Suc i" d] by simp
  next
    case True
    obtain r ob' d' where u: "update loads ob d ev data = (r, ob', d')"
      by (cases "update loads ob d ev data") auto
    let ?d = "d'\<lparr>observers := (observers d')[i := ob'],
                   delivered := delivered d' @ [(i, ev, data)]\<rparr>"
    have c: "content ?d = content d" using update_frame(1)[OF u] by simp
    have v: "fst (validate loads v0 ?d) = fst (validate loads v0 d)"
      using validate_reads_content[OF c] by blast
    have l: "last_validation_result ?d =
       (if ev = ''content_changed'' \<and> (\<exists>v. impl ob = Validator v \<and> auto_validate v)
        then Some (fst (validate loads v0 d)) else last_validation_result d)"
      using update_validation[OF u, of v0] by simp
    show ?thesis using True u Cons.IH[of "Suc i" ?d] v l by auto
  qed
qed

lemma notify_validation:
  "last_validation_result (notify loads d ev data) =
     (if ev = ''content_changed'' \<and>
         (\<exists>ob \<in> set (observers d). enabled ob \<and> (\<exists>v. impl ob = Validator v \<and> auto_validate v))
      then Some (fst (validate loads v0 d)) else last_validation_result d)"
  by (simp add: notify_def notify_loop_validation[of loads ev data "observers d" 0 d v0])

lemma notify_other_event:
  "ev \<noteq> ''content_changed'' \<Longrightarrow>
     last_validation_result (notify loads d ev data) = last_validation_result d"
  using notify_validation[of loads d ev data undefined] by simp



section \<open>The edit counter under commands\<close>

lemma insert_doc_edit_count:
  "edit_count (snd (insert_doc loads d position t n))
     = (if fst (insert_doc loads d position t n) = Inr () then edit_count d + 1 else edit_count d)"
  by (simp add: insert_doc_def Let_def notify_frame)

lemma delete_doc_edit_count:
  "edit_count (snd (delete_doc loads d start finish n))
     = (if fst (delete_doc loads d start finish n) = Inr () then edit_count d + 1 else edit_count d)"
  by (simp add: delete_doc_def Let_def notify_frame)

lemma set_content_edit_count:
  "edit_count (snd (set_content loads d c n))
     = (if fst (set_content loads d c n) = Inr () then edit_count d + 1 else edit_count d)"
  by (simp add: set_content_def Let_def notify_frame)

lemma command_edit_count_mono:
  "edit_count d \<le> edit_count (snd (snd (command_execute loads c d)))"
  "edit_count d \<le> edit_count (snd (snd (execute_children loads cs d)))"
proof (induction loads c d and loads cs d rule: command_execute_execute_children.induct)
  case (1 loads position tx executed d)
  show ?case using insert_doc_edit_count[of loads d position tx True]
    by (auto split: prod.splits sum.splits if_splits)
next
  case (2 loads s e dt ex d)
  show ?case using delete_doc_edit_count[of loads d s e True]
    by (auto split: prod.splits sum.splits if_splits)
next
  case (3 loads commands executed d)
  then show ?case by (auto split: prod.splits)
next
  case (4 loads d)
  show ?case by simp
next
  case (5 loads c cs d)
  show ?case
  proof (cases "command_execute loads c d")
    case (fields ok c' d')
    show ?thesis
    proof (cases ok)
      case False
      then show ?thesis using fields "5.IH"(1) by simp
    next
      case True
      then show ?thesis using fields "5.IH"(1) "5.IH"(2)[of ok "(c', d')" c' d']
        by (auto split: prod.splits)
    qed
  qed
qed

lemma undo_edit_count_mono:
  "edit_count d \<le> edit_count (snd (snd (command_undo loads c d)))"
  "edit_count d \<le> edit_count (snd (snd (undo_children loads cs d)))"
proof (induction loads c d and loads cs d rule: command_undo_undo_children.induct)
  case (1 loads position tx executed d)
  show ?case using delete_doc_edit_count[of loads d position "position + int (length tx)" True]
    by (auto simp: Let_def split: prod.splits sum.splits if_splits)
next
  case (2 loads s e dt ex d)
  show ?case using insert_doc_edit_count[of loads d s dt True]
    by (auto split: prod.splits sum.splits if_splits)
next
  case (3 loads commands executed d)
  then show ?case by (auto split: prod.splits)
next
  case (4 loads d)
  show ?case by simp
next
  case (5 loads c cs d)
  show ?case
  proof (cases "undo_children loads cs d")
    case (fields ok cs' d')
    show ?thesis
    proof (cases ok)
      case False
      then show ?thesis using fields "5.IH"(1) by simp
    next
      case True
      then show ?thesis using fields "5.IH"(1) "5.IH"(2)[of ok "(cs', d')" cs' d']
        by (auto split: prod.splits)
    qed
  qed
qed

lemma apply_operation_mono:
  "x \<noteq> Reset \<Longrightarrow> edit_count d \<le> edit_count (apply_operation loads x d)"
  by (cases x)
    (simp_all add: insert_doc_edit_count delete_doc_edit_count set_content_edit_count clear_def
      load_from_file_def mark_as_saved_def notify_frame Let_def command_edit_count_mono
      undo_edit_count_mono split: option.splits)

lemma apply_operations_mono:
  "Reset \<notin> set xs \<Longrightarrow> edit_count d \<le> edit_count (apply_operations loads xs d)"
proof (induction xs arbitrary: d)
  case Nil
  show ?case by simp
next
  case (Cons x xs)
  have "edit_count d \<le> edit_count (apply_operation loads x d)"
    using Cons.prems by (intro apply_operation_mono) auto
  also have "\<dots> \<le> edit_count (apply_operations loads xs (apply_operation loads x d))"
    using Cons.prems by (intro Cons.IH) auto
  finally show ?case by simp
qed

text \<open>
  A command that succeeds raises the counter by the number of its primitive
  commands, on \<open>execute\<close> and on \<open>undo\<close>.
\<close>

lemma command_edit_count_exact:
  "fst (command_execute loads c d) \<Longrightarrow>
     edit_count (snd (snd (command_execute loads c d)))
       = edit_count d + int (primitive_commands c)"
  "fst (execute_children loads cs d) \<Longrightarrow>
     edit_count (snd (snd (execute_children loads cs d)))
       = edit_count d + int (sum_list (map primitive_commands cs))"
proof (induction loads c d and loads cs d rule: command_execute_execute_children.induct)
  case (1 loads position tx executed d)
  then show ?case using insert_doc_edit_count[of loads d position tx True]
    by (auto split: prod.splits sum.splits if_splits)
next
  case (2 loads s e dt ex d)
  then show ?case using delete_doc_edit_count[of loads d s e True]
    by (auto split: prod.splits sum.splits if_splits)
next
  case (3 loads commands executed d)
  then show ?case by (auto split: prod.splits)
next
  case (4 loads d)
  show ?case by simp
next
  case (5 loads c cs d)
  obtain ok c' d' where f: "command_execute loads c d = (ok, c', d')"
    by (cases "command_execute loads c d") auto
  have ok: ok using "5.prems" f by (auto split: if_splits)
  have rest: "fst (execute_children loads cs d')"
    using "5.prems" f ok by (auto split: prod.splits)
  have a: "edit_count d' = edit_count d + int (primitive_commands c)"
    using "5.IH"(1) f ok by simp
  have b: "edit_count (snd (snd (execute_children loads cs d')))
             = edit_count d' + int (sum_list (map primitive_commands cs))"
    using "5.IH"(2)[of ok "(c', d')" c' d'] f ok rest by simp
  show ?case using f ok a b by (auto split: prod.splits)
qed

lemma undo_edit_count_exact:
  "fst (command_undo loads c d) \<Longrightarrow>
     edit_count (snd (snd (command_undo loads c d)))
       = edit_count d + int (primitive_commands c)"
  "fst (undo_children loads cs d) \<Longrightarrow>
     edit_count (snd (snd (undo_children loads cs d)))
       = edit_count d + int (sum_list (map primitive_commands cs))"
proof (induction loads c d and loads cs d rule: command_undo_undo_children.induct)
  case (1 loads position tx executed d)
  then show ?case
    using delete_doc_edit_count[of loads d position "position + int (length tx)" True]
    by (auto simp: Let_def split: prod.splits sum.splits if_splits)
next
  case (2 loads s e dt ex d)
  then show ?case using insert_doc_edit_count[of loads d s dt True]
    by (auto split: prod.splits sum.splits if_splits)
next
  case (3 loads commands executed d)
  then show ?case by (auto split: prod.splits)
next
  case (4 loads d)
  show ?case by simp
next
  case (5 loads c cs d)
  obtain ok cs' d' where f: "undo_children loads cs d = (ok, cs', d')"
    by (cases "undo_children loads cs d") auto
  have ok: ok using "5.prems" f by (auto split: if_splits)
  have rest: "fst (command_undo loads c d')"
    using "5.prems" f ok by (auto split: prod.splits)
  have a: "edit_count d' = edit_count d + int (sum_list (map primitive_commands cs))"
    using "5.IH"(1) f ok by simp
  have b: "edit_count (snd (snd (command_undo loads c d')))
             = edit_count d' + int (primitive_commands c)"
    using "5.IH"(2)[of ok "(cs', d')" cs' d'] f ok rest by simp
  show ?case using f ok a b by (auto split: prod.splits)
qed

lemma primitive_edit_count:
  "edit_count (snd (snd (command_execute loads (InsertCommand position t executed) d)))
     = (if fst (command_execute loads (InsertCommand position t executed) d)
        then edit_count d + 1 else edit_count d)"
  "edit_count (snd (snd (command_undo loads (InsertCommand position t executed) d)))
     = (if fst (command_undo loads (InsertCommand position t executed) d)
        then edit_count d + 1 else edit_count d)"
  "edit_count (snd (snd (command_execute loads (DeleteCommand start finish deleted executed) d)))
     = (if fst (command_execute loads (DeleteCommand start finish deleted executed) d)
        then edit_count d + 1 else edit_count d)"
  "edit_count (snd (snd (command_undo loads (DeleteCommand start finish deleted executed) d)))
     = (if fst (command_undo loads (DeleteCommand start finish deleted executed) d)
        then edit_count d + 1 else edit_count d)"
  using insert_doc_edit_count[of loads d position t True]
    delete_doc_edit_count[of loads d position "position + int (length t)" True]
    delete_doc_edit_count[of loads d start finish True]
    insert_doc_edit_count[of loads d start deleted True]
  by (auto simp: Let_def split: prod.splits sum.splits if_splits)

section \<open>What the operations return\<close>

lemma insert_doc_result:
  "insert_doc loads d position t n = (r, d') \<Longrightarrow>
     read_only d' = read_only d \<and>
     (r = Inr () \<longleftrightarrow> \<not> read_only d \<and> 0 \<le> position \<and> position \<le> int (length (content d))) \<and>
     (r = Inr () \<longrightarrow>
        content d' = take (nat position) (content d) @ t @ drop (nat position) (content d)) \<and>
     (r \<noteq> Inr () \<longrightarrow> d' = d)"
  by (auto simp: insert_doc_def Let_def notify_frame slice_to_take slice_from_drop
      split: if_splits)

lemma delete_doc_result:
  "delete_doc loads d start finish n = (r, d') \<Longrightarrow>
     read_only d' = read_only d \<and>
     (r = Inr () \<longleftrightarrow>
        \<not> read_only d \<and> 0 \<le> start \<and> start \<le> finish \<and> finish \<le> int (length (content d))) \<and>
     (r = Inr () \<longrightarrow>
        content d' = take (nat start) (content d) @ drop (nat finish) (content d)) \<and>
     (r \<noteq> Inr () \<longrightarrow> d' = d)"
  by (auto simp: delete_doc_def Let_def notify_frame slice_to_take slice_from_drop
      split: if_splits)

lemma get_text_result:
  "get_text d start finish = Inr s \<longleftrightarrow>
     0 \<le> start \<and> start \<le> finish \<and> finish \<le> int (length (content d)) \<and>
     s = take (nat finish - nat start) (drop (nat start) (content d))"
  by (auto simp: get_text_def slice_take_drop)

lemma undo_insert_restores:
  assumes "\<not> read_only e" "0 \<le> position" "position \<le> int (length c)"
    and "content e = take (nat position) c @ t @ drop (nat position) c"
  shows "\<exists>e'. delete_doc loads e position (position + int (length t)) True = (Inr (), e') \<and>
           content e' = c \<and> read_only e' = read_only e"
proof -
  obtain r e' where eq: "delete_doc loads e position (position + int (length t)) True = (r, e')"
    by (cases "delete_doc loads e position (position + int (length t)) True") auto
  have len: "position + int (length t) \<le> int (length (content e))"
    using assms by (simp add: min_def)
  have r: "r = Inr ()" and ro: "read_only e' = read_only e"
    using delete_doc_result[OF eq] assms len by auto
  have np: "nat position \<le> length c" using assms by simp
  have tk: "take (nat position) (content e) = take (nat position) c"
    using assms np by (auto simp: min_def)
  have "nat (position + int (length t)) = nat position + length t"
    using assms by (simp add: nat_add_distrib)
  then have dr: "drop (nat (position + int (length t))) (content e) = drop (nat position) c"
    using assms np by (auto simp: min_def)
  have "content e' = take (nat position) (content e) @ drop (nat (position + int (length t))) (content e)"
    using delete_doc_result[OF eq] r by simp
  then have "content e' = c" using tk dr by simp
  with r ro eq show ?thesis by simp
qed

lemma undo_delete_restores:
  assumes "\<not> read_only e" "0 \<le> start" "start \<le> finish" "finish \<le> int (length c)"
    and "content e = take (nat start) c @ drop (nat finish) c"
  shows "\<exists>e'. insert_doc loads e start
             (take (nat finish - nat start) (drop (nat start) c)) True = (Inr (), e') \<and>
           content e' = c \<and> read_only e' = read_only e"
proof -
  let ?t = "take (nat finish - nat start) (drop (nat start) c)"
  obtain r e' where eq: "insert_doc loads e start ?t True = (r, e')"
    by (cases "insert_doc loads e start ?t True") auto
  have len: "start \<le> int (length (content e))"
    using assms by (simp add: min_def)
  have r: "r = Inr ()" and ro: "read_only e' = read_only e"
    using insert_doc_result[OF eq] assms len by auto
  have np: "nat start \<le> length c" using assms by simp
  have tk: "take (nat start) (content e) = take (nat start) c"
    using assms np by (auto simp: min_def)
  have dr: "drop (nat start) (content e) = drop (nat finish) c"
    using assms np by (auto simp: min_def)
  have mid: "?t @ drop (nat finish) c = drop (nat start) c"
  proof -
    have "nat finish = nat start + (nat finish - nat start)" using assms by simp
    then have "drop (nat finish) c = drop (nat finish - nat start) (drop (nat start) c)"
      by (metis add.commute drop_drop)
    then show ?thesis by (simp only: append_take_drop_id)
  qed
  have "content e' = take (nat start) (content e) @ ?t @ drop (nat start) (content e)"
    using insert_doc_result[OF eq] r by simp
  then have "content e' = c" using tk dr mid by simp
  with r ro eq show ?thesis by simp
qed

section \<open>Undo after execute\<close>

text \<open>
  A command that executed is undone by its \<open>undo\<close> from any document that has the
  content and the read-only flag it left, and the content is back to what it was
  before the command: for a composite, child by child in reverse.
\<close>

lemma execute_undo_inverse:
  "command_execute loads c d = (True, c', d') \<Longrightarrow> content e = content d' \<Longrightarrow>
     read_only e = read_only d' \<Longrightarrow>
     \<exists>c'' e'. command_undo loads2 c' e = (True, c'', e') \<and> content e' = content d \<and>
       read_only e' = read_only d"
  "execute_children loads cs d = (True, cs', d') \<Longrightarrow> content e = content d' \<Longrightarrow>
     read_only e = read_only d' \<Longrightarrow>
     \<exists>cs'' e'. undo_children loads2 cs' e = (True, cs'', e') \<and> content e' = content d \<and>
       read_only e' = read_only d"
proof (induction loads c d and loads cs d arbitrary: c' d' e and cs' d' e
    rule: command_execute_execute_children.induct)
  case (1 loads position tx executed d)
  obtain r d1 where eq: "insert_doc loads d position tx True = (r, d1)"
    by (cases "insert_doc loads d position tx True") auto
  from "1.prems"(1) eq have r: "r = Inr ()" and c': "c' = InsertCommand position tx True"
    and d': "d' = d1"
    by (auto split: sum.splits)
  note res = insert_doc_result[OF eq]
  from res r have ok: "\<not> read_only d" "0 \<le> position" "position \<le> int (length (content d))"
    and cont: "content d1 = take (nat position) (content d) @ tx @ drop (nat position) (content d)"
    and ro: "read_only d1 = read_only d"
    by auto
  have "\<not> read_only e" using "1.prems"(3) d' ro ok by simp
  moreover have "content e = take (nat position) (content d) @ tx @ drop (nat position) (content d)"
    using "1.prems"(2) d' cont by simp
  ultimately obtain e' where
    "delete_doc loads2 e position (position + int (length tx)) True = (Inr (), e')"
    "content e' = content d" "read_only e' = read_only e"
    using undo_insert_restores[of e position "content d" tx loads2] ok by blast
  then show ?case using c' "1.prems"(3) d' ro by (simp add: Let_def)
next
  case (2 loads start finish deleted_text executed d)
  obtain s where gt: "get_text d start finish = Inr s"
    using "2.prems"(1) by (auto split: sum.splits)
  obtain r d1 where eq: "delete_doc loads d start finish True = (r, d1)"
    by (cases "delete_doc loads d start finish True") auto
  from "2.prems"(1) gt eq have r: "r = Inr ()" and c': "c' = DeleteCommand start finish s True"
    and d': "d' = d1"
    by (auto split: sum.splits)
  note res = delete_doc_result[OF eq]
  from res r have ok: "\<not> read_only d" "0 \<le> start" "start \<le> finish"
      "finish \<le> int (length (content d))"
    and cont: "content d1 = take (nat start) (content d) @ drop (nat finish) (content d)"
    and ro: "read_only d1 = read_only d"
    by auto
  have s: "s = take (nat finish - nat start) (drop (nat start) (content d))"
    using gt get_text_result by blast
  have "\<not> read_only e" using "2.prems"(3) d' ro ok by simp
  moreover have "content e = take (nat start) (content d) @ drop (nat finish) (content d)"
    using "2.prems"(2) d' cont by simp
  ultimately obtain e' where
    "insert_doc loads2 e start s True = (Inr (), e')"
    "content e' = content d" "read_only e' = read_only e"
    using undo_delete_restores[of e start finish "content d" loads2] ok s by blast
  then show ?case using c' "2.prems"(3) d' ro by simp
next
  case (3 loads commands executed d)
  obtain cs1 where ex: "execute_children loads commands d = (True, cs1, d')"
    and c': "c' = CompositeCommand cs1 True"
    using "3.prems"(1) by (auto split: prod.splits)
  from "3.IH"[OF ex "3.prems"(2) "3.prems"(3)] obtain cs2 e' where
    "undo_children loads2 cs1 e = (True, cs2, e')" "content e' = content d"
    "read_only e' = read_only d"
    by blast
  then show ?case using c' by simp
next
  case (4 loads d)
  then show ?case by auto
next
  case (5 loads c cs d)
  obtain ok c1 d1 where ec: "command_execute loads c d = (ok, c1, d1)"
    by (cases "command_execute loads c d") auto
  have ok: "ok" using "5.prems"(1) ec by (auto split: if_splits)
  obtain cs1 where ecs: "execute_children loads cs d1 = (True, cs1, d')"
    and cs': "cs' = c1 # cs1"
    using "5.prems"(1) ec ok by (auto split: prod.splits)
  have ec': "command_execute loads c d = (True, c1, d1)" using ec ok by simp
  from "5.IH"(2)[of ok "(c1, d1)" c1 d1 cs1 d' e] ec ok ecs "5.prems"(2,3)
  obtain cs2 e1 where u1: "undo_children loads2 cs1 e = (True, cs2, e1)"
    and ce1: "content e1 = content d1" and re1: "read_only e1 = read_only d1"
    by auto
  from "5.IH"(1)[OF ec' ce1 re1] obtain c2 e2 where
    u2: "command_undo loads2 c1 e1 = (True, c2, e2)" and "content e2 = content d"
    "read_only e2 = read_only d"
    by blast
  then show ?case using cs' u1 by simp
qed

section \<open>The steps of the history manager\<close>

lemma length_store: "length (store xs i x) = length xs"
  by (simp add: store_def)

lemma execute_failed:
  "command_execute loads c d = (False, c', d') \<Longrightarrow> execute loads m c d = (False, m, d')"
  by (simp add: execute_def)

lemma execute_appended:
  assumes "command_execute loads c d = (True, c', d')"
    and "- 1 \<le> current_index m" "current_index m \<le> int (length (history m)) - 1"
    and "current_index m + 2 \<le> max_history m"
  shows "execute loads m c d =
           (True, m\<lparr>history := take (nat (current_index m + 1)) (history m) @ [c'],
                    current_index := current_index m + 1\<rparr>, d')"
proof -
  have h1: "(if current_index m < int (length (history m)) - 1
             then slice_to (history m) (current_index m + 1) else history m)
            = take (nat (current_index m + 1)) (history m)"
  proof (cases "current_index m < int (length (history m)) - 1")
    case True
    then show ?thesis using assms(2) by (simp add: slice_to_take)
  next
    case False
    then have "nat (current_index m + 1) = length (history m)" using assms(3) by simp
    then show ?thesis using False by simp
  qed
  have len: "int (length (take (nat (current_index m + 1)) (history m) @ [c'])) = current_index m + 2"
    using assms(2,3) by (auto simp: min_def)
  show ?thesis
    unfolding execute_def using assms(1,4) len
    by (simp add: h1 Let_def del: length_append length_take)
qed

lemma execute_evicted:
  assumes "command_execute loads c d = (True, c', d')"
    and "- 1 \<le> current_index m" "current_index m \<le> int (length (history m)) - 1"
    and "current_index m + 2 > max_history m" "0 \<le> max_history m"
  shows "execute loads m c d =
           (True, m\<lparr>history := drop (nat (current_index m + 2 - max_history m))
                                 (take (nat (current_index m + 1)) (history m) @ [c']),
                    current_index := max_history m - 1\<rparr>, d')"
proof -
  have h1: "(if current_index m < int (length (history m)) - 1
             then slice_to (history m) (current_index m + 1) else history m)
            = take (nat (current_index m + 1)) (history m)"
  proof (cases "current_index m < int (length (history m)) - 1")
    case True
    then show ?thesis using assms(2) by (simp add: slice_to_take)
  next
    case False
    then have "nat (current_index m + 1) = length (history m)" using assms(3) by simp
    then show ?thesis using False by simp
  qed
  have len: "int (length (take (nat (current_index m + 1)) (history m) @ [c'])) = current_index m + 2"
    using assms(2,3) by (auto simp: min_def)
  show ?thesis
    unfolding execute_def using assms(1,4,5) len
    by (simp add: h1 Let_def slice_from_drop del: length_append length_take)
qed

lemma execute_invariant:
  assumes "history_invariant m"
  shows "history_invariant (fst (snd (execute loads m c d))) \<and>
         max_history (fst (snd (execute loads m c d))) = max_history m"
proof -
  obtain ok c' d' where ce: "command_execute loads c d = (ok, c', d')"
    by (cases "command_execute loads c d") auto
  have inv: "- 1 \<le> current_index m" "current_index m \<le> int (length (history m)) - 1"
    "int (length (history m)) \<le> max_history m"
    using assms by (auto simp: history_invariant_def)
  show ?thesis
  proof (cases ok)
    case False
    then show ?thesis using ce assms by (simp add: execute_failed)
  next
    case True
    then have ce': "command_execute loads c d = (True, c', d')" using ce by simp
    show ?thesis
    proof (cases "current_index m + 2 \<le> max_history m")
      case le: True
      show ?thesis using execute_appended[OF ce' inv(1,2) le] inv le
        by (auto simp: history_invariant_def min_def)
    next
      case gt: False
      have "0 \<le> max_history m" using inv by linarith
      with gt execute_evicted[OF ce' inv(1,2)] inv show ?thesis
        by (auto simp: history_invariant_def min_def)
    qed
  qed
qed

lemma undo_invariant:
  assumes "history_invariant m"
  shows "history_invariant (fst (snd (undo loads m d))) \<and>
         max_history (fst (snd (undo loads m d))) = max_history m \<and>
         fst (undo loads m d) \<noteq> Inl IndexError"
  using assms
  by (auto simp: undo_def history_invariant_def can_undo_def subscript_def Let_def length_store
      split: prod.splits sum.splits)

lemma redo_invariant:
  assumes "history_invariant m"
  shows "history_invariant (fst (snd (redo loads m d))) \<and>
         max_history (fst (snd (redo loads m d))) = max_history m \<and>
         fst (redo loads m d) \<noteq> Inl IndexError"
  using assms
  by (auto simp: redo_def history_invariant_def can_redo_def subscript_def Let_def length_store
      split: prod.splits sum.splits)


lemma execute_True:
  "execute loads m c d = (True, m', d') \<Longrightarrow> \<exists>c'. command_execute loads c d = (True, c', d')"
  by (cases "command_execute loads c d") (auto simp: execute_def Let_def split: if_splits)


text \<open>Stripping the empty text.\<close>

lemma strip_Nil: "strip [] = []"
  by (simp add: strip_def)


text \<open>The equations that evaluate the operations on a given document or manager.\<close>

lemmas doc_eval = insert_doc_def delete_doc_def set_content_def clear_def load_from_file_def
  mark_as_saved_def reset_def is_new_def get_text_def notify_def new_document_def
  slice_def slice_to_def slice_from_def clamp_index_def Let_def

lemmas manager_eval = execute_def undo_def redo_def can_undo_def can_redo_def new_manager_def
  subscript_def store_def clear_history_def history_invariant_def MAX_UNDO_HISTORY_def


section \<open>Commands and their inverses\<close>

text \<open>
  C1. For every document that is not read-only, with content \<open>C\<close>, every position
  with \<open>0 \<le> position \<le> length C\<close> and every text, \<open>InsertCommand.execute()\<close> returns
  \<open>True\<close> and splices the text in at the position, and \<open>InsertCommand.undo()\<close> called
  next returns \<open>True\<close> and leaves the content exactly \<open>C\<close>. The listeners attached to
  the document are called by both steps and do not change that.
\<close>

theorem insert_undo_inverse:
  assumes "\<not> read_only d" "0 \<le> position" "position \<le> int (length (content d))"
  shows "case command_execute loads (InsertCommand position t executed) d of
           (ok1, c1, d1) \<Rightarrow>
             ok1 \<and>
             content d1 = take (nat position) (content d) @ t @ drop (nat position) (content d) \<and>
             (case command_undo loads c1 d1 of
                (ok2, c2, d2) \<Rightarrow> ok2 \<and> content d2 = content d)"
proof -
  obtain r d1 where eq: "insert_doc loads d position t True = (r, d1)"
    by (cases "insert_doc loads d position t True") auto
  have r: "r = Inr ()" using insert_doc_result[OF eq] assms by simp
  then have cont: "content d1 = take (nat position) (content d) @ t @ drop (nat position) (content d)"
    using insert_doc_result[OF eq] by simp
  have ex: "command_execute loads (InsertCommand position t executed) d
              = (True, InsertCommand position t True, d1)"
    using eq r by simp
  from execute_undo_inverse(1)[OF ex refl refl, of loads] obtain c2 d2 where
    "command_undo loads (InsertCommand position t True) d1 = (True, c2, d2)"
    "content d2 = content d"
    by blast
  then show ?thesis using ex cont by simp
qed

text \<open>The law at work: \<open>ab\<close> is inserted into \<open>{}\<close> at position 1 and taken out again.\<close>

theorem insert_undo_inverse_witness:
  "\<not> read_only (new_document None ''{}'') \<and>
   (let e = command_execute (\<lambda>s. Parsed) (InsertCommand 1 ''ab'' False) (new_document None ''{}'');
        u = command_undo (\<lambda>s. Parsed) (fst (snd e)) (snd (snd e))
    in fst e \<and> content (snd (snd e)) = ''{ab}'' \<and> fst u \<and> content (snd (snd u)) = ''{}'')"
  using insert_undo_inverse [where d = "new_document None ''{}''" and position = 1
      and t = "''ab''" and loads = "\<lambda>s. Parsed" and executed = False]
  by (simp add: doc_eval)


text \<open>
  C2. For every document that is not read-only, with content \<open>C\<close>, and every range
  with \<open>0 \<le> start \<le> end \<le> length C\<close>, \<open>DeleteCommand.execute()\<close> returns \<open>True\<close>, keeps
  the text \<open>C[start:end]\<close> in the command and removes it from the content, and
  \<open>DeleteCommand.undo()\<close> called next returns \<open>True\<close>, inserts that very text at
  \<open>start\<close> and leaves the content exactly \<open>C\<close>.
\<close>

theorem delete_undo_inverse:
  assumes "\<not> read_only d" "0 \<le> start" "start \<le> finish" "finish \<le> int (length (content d))"
  shows "case command_execute loads (DeleteCommand start finish deleted_text executed) d of
           (ok1, c1, d1) \<Rightarrow>
             ok1 \<and>
             c1 = DeleteCommand start finish (slice (content d) start finish) True \<and>
             content d1 = take (nat start) (content d) @ drop (nat finish) (content d) \<and>
             (case command_undo loads c1 d1 of
                (ok2, c2, d2) \<Rightarrow>
                  ok2 \<and> content d2 = content d \<and>
                  content d2 = take (nat start) (content d1) @ slice (content d) start finish
                                 @ drop (nat start) (content d1))"
proof -
  let ?s = "slice (content d) start finish"
  have gt: "get_text d start finish = Inr ?s"
    using assms by (simp add: get_text_def)
  obtain r d1 where eq: "delete_doc loads d start finish True = (r, d1)"
    by (cases "delete_doc loads d start finish True") auto
  have r: "r = Inr ()" using delete_doc_result[OF eq] assms by simp
  then have cont: "content d1 = take (nat start) (content d) @ drop (nat finish) (content d)"
    and ro: "read_only d1 = read_only d"
    using delete_doc_result[OF eq] by simp_all
  have ex: "command_execute loads (DeleteCommand start finish deleted_text executed) d
              = (True, DeleteCommand start finish ?s True, d1)"
    using eq r gt by simp
  obtain r2 d2 where eq2: "insert_doc loads d1 start ?s True = (r2, d2)"
    by (cases "insert_doc loads d1 start ?s True") auto
  have len: "start \<le> int (length (content d1))"
    using cont assms by (auto simp: min_def)
  have r2: "r2 = Inr ()" using insert_doc_result[OF eq2] assms ro len by simp
  then have c2: "content d2 = take (nat start) (content d1) @ ?s @ drop (nat start) (content d1)"
    using insert_doc_result[OF eq2] by simp
  from execute_undo_inverse(1)[OF ex refl refl, of loads] obtain c2' d2' where
    u: "command_undo loads (DeleteCommand start finish ?s True) d1 = (True, c2', d2')"
    and restored: "content d2' = content d"
    by blast
  have "d2' = d2" using u eq2 r2 by simp
  then show ?thesis using ex cont u restored c2 by simp
qed

text \<open>The law at work: \<open>ab\<close> is deleted from \<open>{abc}\<close> and put back.\<close>

theorem delete_undo_inverse_witness:
  "\<not> read_only (new_document None ''{abc}'') \<and>
   (let e = command_execute (\<lambda>s. Parsed) (DeleteCommand 1 3 [] False) (new_document None ''{abc}'');
        u = command_undo (\<lambda>s. Parsed) (fst (snd e)) (snd (snd e))
    in fst e \<and> fst (snd e) = DeleteCommand 1 3 ''ab'' True \<and> content (snd (snd e)) = ''{c}'' \<and>
       fst u \<and> content (snd (snd u)) = ''{abc}'')"
  using delete_undo_inverse [where d = "new_document None ''{abc}''" and start = 1 and finish = 3
      and loads = "\<lambda>s. Parsed" and deleted_text = "[]" and executed = False]
  by (simp add: doc_eval)


section \<open>The history: truncation and bound\<close>

text \<open>
  C3. Take a manager that satisfies the invariant of the history and whose history
  is \<open>[A, B, C]\<close> with the cursor at \<open>C\<close>. If \<open>undo()\<close> returns \<open>True\<close> and the execution
  of a new command \<open>D\<close> then returns \<open>True\<close>, \<open>C\<close> is gone: the history is exactly
  \<open>A\<close>, \<open>B\<close> and \<open>D\<close> (as its execution left it), of length 3, the cursor is at \<open>D\<close>,
  and \<open>redo()\<close> returns \<open>False\<close> and changes nothing.
\<close>

theorem history_truncation:
  assumes "history_invariant m" "history m = [A, B, C]" "current_index m = 2"
    and "undo loads m d = (Inr True, m1, d1)"
    and "execute loads m1 D d1 = (True, m2, d2)"
  shows "history m2 = [A, B, fst (snd (command_execute loads D d1))] \<and>
         length (history m2) = 3 \<and> current_index m2 = 2 \<and>
         \<not> can_redo m2 \<and> redo loads m2 d2 = (Inr False, m2, d2)"
proof -
  have bound: "3 \<le> max_history m"
    using assms(1,2) by (simp add: history_invariant_def)
  obtain ok C' dC where cu: "command_undo loads C d = (ok, C', dC)"
    by (cases "command_undo loads C d") auto
  have sub: "subscript (history m) (current_index m) = Inr C"
    using assms(2,3) by (simp add: subscript_def)
  have st: "store (history m) (current_index m) C' = [A, B, C']"
    using assms(2,3) by (simp add: store_def)
  have m1: "m1 = m\<lparr>history := [A, B, C'], current_index := 1\<rparr>"
    using assms(3,4) cu sub st by (cases ok) (simp_all add: undo_def can_undo_def Let_def)
  obtain D' where ce: "command_execute loads D d1 = (True, D', d2)"
    using execute_True[OF assms(5)] by blast
  have "execute loads m1 D d1 =
          (True, m1\<lparr>history := take (nat (current_index m1 + 1)) (history m1) @ [D'],
                    current_index := current_index m1 + 1\<rparr>, d2)"
    using bound by (intro execute_appended[OF ce]) (simp_all add: m1)
  then have m2: "m2 = m1\<lparr>history := [A, B, D'], current_index := 2\<rparr>"
    using assms(5) by (simp add: m1)
  show ?thesis using m2 ce by (simp add: can_redo_def redo_def)
qed

text \<open>
  The scenario on three inserts that built \<open>abc\<close>: after one undo and the insert
  of \<open>d\<close> the history is the inserts of \<open>a\<close>, \<open>b\<close> and \<open>d\<close>, and \<open>redo\<close> returns \<open>False\<close>.
\<close>

theorem history_truncation_witness:
  "(let m = \<lparr>history = [InsertCommand 0 ''a'' True, InsertCommand 1 ''b'' True,
                          InsertCommand 2 ''c'' True],
              current_index = 2, max_history = 100\<rparr>;
        d = new_document None ''abc'';
        u = undo (\<lambda>s. Parsed) m d;
        e = execute (\<lambda>s. Parsed) (fst (snd u)) (InsertCommand 2 ''d'' False) (snd (snd u));
        r = redo (\<lambda>s. Parsed) (fst (snd e)) (snd (snd e))
    in history_invariant m \<and> fst u = Inr True \<and> fst e \<and>
       history (fst (snd e)) = [InsertCommand 0 ''a'' True, InsertCommand 1 ''b'' True,
                                InsertCommand 2 ''d'' True] \<and>
       current_index (fst (snd e)) = 2 \<and> content (snd (snd e)) = ''abd'' \<and>
       fst r = Inr False \<and> \<not> can_redo (fst (snd e)))"
proof -
  let ?L = "\<lambda>s::string. Parsed"
  let ?m = "\<lparr>history = [InsertCommand 0 ''a'' True, InsertCommand 1 ''b'' True,
                          InsertCommand 2 ''c'' True],
              current_index = 2, max_history = 100\<rparr>"
  let ?d = "new_document None ''abc''"
  let ?u = "undo ?L ?m ?d"
  let ?e = "execute ?L (fst (snd ?u)) (InsertCommand 2 ''d'' False) (snd (snd ?u))"
  have inv: "history_invariant ?m" by (simp add: history_invariant_def)
  have u: "?u = (Inr True, fst (snd ?u), snd (snd ?u))"
    by (simp add: manager_eval doc_eval)
  have e: "?e = (True, fst (snd ?e), snd (snd ?e))"
    by (simp add: manager_eval doc_eval)
  have c: "content (snd (snd ?e)) = ''abd''"
    by (simp add: manager_eval doc_eval)
  have d': "fst (snd (command_execute ?L (InsertCommand 2 ''d'' False) (snd (snd ?u))))
             = InsertCommand 2 ''d'' True"
    by (simp add: manager_eval doc_eval)
  have fu: "fst ?u = Inr True" by (subst u) simp
  have fe: "fst ?e" by (subst e) simp
  have T: "history (fst (snd ?e)) = [InsertCommand 0 ''a'' True, InsertCommand 1 ''b'' True,
                                InsertCommand 2 ''d'' True] \<and>
       current_index (fst (snd ?e)) = 2 \<and> \<not> can_redo (fst (snd ?e)) \<and>
       fst (redo ?L (fst (snd ?e)) (snd (snd ?e))) = Inr False"
    using history_truncation [OF inv _ _ u e] d' by simp
  show ?thesis using inv fu fe T c by (simp add: Let_def)
qed

text \<open>
  C4, as the code has it. With maximum history 2, three commands \<open>A\<close>, \<open>B\<close>, \<open>C\<close>
  executed with success on a new manager leave the history \<open>[B, C]\<close> with the cursor
  at \<open>C\<close>. From there \<open>undo()\<close> succeeds twice, not once: the first call undoes \<open>C\<close>
  and gives back the content left by \<open>B\<close>, with the cursor at \<open>B\<close> and \<open>can_undo()\<close>
  still true; the second undoes \<open>B\<close> and gives back the content left by \<open>A\<close>. Only
  then is \<open>can_undo()\<close> false, and a third \<open>undo()\<close> returns \<open>False\<close>.
\<close>

theorem bounded_history:
  assumes "execute loads (new_manager (Some 2)) A d0 = (True, m1, d1)"
    and "execute loads m1 B d1 = (True, m2, d2)"
    and "execute loads m2 C d2 = (True, m3, d3)"
  shows "history m3 = [fst (snd (command_execute loads B d1)),
                       fst (snd (command_execute loads C d2))] \<and>
         current_index m3 = 1 \<and> can_undo m3 \<and>
         (\<exists>m4 d4. undo loads m3 d3 = (Inr True, m4, d4) \<and> content d4 = content d2 \<and>
            current_index m4 = 0 \<and> can_undo m4 \<and>
            (\<exists>m5 d5. undo loads m4 d4 = (Inr True, m5, d5) \<and> content d5 = content d1 \<and>
               current_index m5 = - 1 \<and> \<not> can_undo m5 \<and>
               undo loads m5 d5 = (Inr False, m5, d5)))"
proof -
  let ?m0 = "new_manager (Some 2)"
  obtain A' where ceA: "command_execute loads A d0 = (True, A', d1)"
    using execute_True[OF assms(1)] by blast
  obtain B' where ceB: "command_execute loads B d1 = (True, B', d2)"
    using execute_True[OF assms(2)] by blast
  obtain C' where ceC: "command_execute loads C d2 = (True, C', d3)"
    using execute_True[OF assms(3)] by blast
  have "execute loads ?m0 A d0 =
          (True, ?m0\<lparr>history := take (nat (current_index ?m0 + 1)) (history ?m0) @ [A'],
                     current_index := current_index ?m0 + 1\<rparr>, d1)"
    by (intro execute_appended[OF ceA]) (simp_all add: new_manager_def)
  then have m1: "m1 = \<lparr>history = [A'], current_index = 0, max_history = 2\<rparr>"
    using assms(1) by (simp add: new_manager_def)
  have "execute loads m1 B d1 =
          (True, m1\<lparr>history := take (nat (current_index m1 + 1)) (history m1) @ [B'],
                    current_index := current_index m1 + 1\<rparr>, d2)"
    by (intro execute_appended[OF ceB]) (simp_all add: m1)
  then have m2: "m2 = \<lparr>history = [A', B'], current_index = 1, max_history = 2\<rparr>"
    using assms(2) by (simp add: m1)
  have "execute loads m2 C d2 =
          (True, m2\<lparr>history := drop (nat (current_index m2 + 2 - max_history m2))
                                  (take (nat (current_index m2 + 1)) (history m2) @ [C']),
                    current_index := max_history m2 - 1\<rparr>, d3)"
    by (intro execute_evicted[OF ceC]) (simp_all add: m2)
  then have m3: "m3 = \<lparr>history = [B', C'], current_index = 1, max_history = 2\<rparr>"
    using assms(3) by (simp add: m2)
  from execute_undo_inverse(1)[OF ceC refl refl, of loads] obtain C'' d4 where
    uC: "command_undo loads C' d3 = (True, C'', d4)" and c4: "content d4 = content d2"
    and r4: "read_only d4 = read_only d2"
    by blast
  define m4 where "m4 = \<lparr>history = [B', C''], current_index = 0, max_history = 2\<rparr>"
  have u1: "undo loads m3 d3 = (Inr True, m4, d4)"
    using uC by (simp add: undo_def can_undo_def subscript_def store_def m3 m4_def)
  from execute_undo_inverse(1)[OF ceB c4 r4, of loads] obtain B'' d5 where
    uB: "command_undo loads B' d4 = (True, B'', d5)" and c5: "content d5 = content d1"
    by blast
  define m5 where "m5 = \<lparr>history = [B'', C''], current_index = - 1, max_history = 2\<rparr>"
  have u2: "undo loads m4 d4 = (Inr True, m5, d5)"
    using uB by (simp add: undo_def can_undo_def subscript_def store_def m4_def m5_def)
  have u3: "undo loads m5 d5 = (Inr False, m5, d5)"
    by (simp add: undo_def can_undo_def m5_def)
  have "history m3 = [fst (snd (command_execute loads B d1)),
                       fst (snd (command_execute loads C d2))]"
    using m3 ceB ceC by simp
  moreover have "current_index m3 = 1 \<and> can_undo m3" using m3 by (simp add: can_undo_def)
  moreover have "current_index m4 = 0 \<and> can_undo m4" by (simp add: m4_def can_undo_def)
  moreover have "current_index m5 = - 1 \<and> \<not> can_undo m5" by (simp add: m5_def can_undo_def)
  ultimately show ?thesis using u1 u2 u3 c4 c5 by blast
qed

text \<open>
  The scenario on three inserts that build \<open>abc\<close>, with every state written out:
  the history after the third is the inserts of \<open>b\<close> and \<open>c\<close>, and two calls of
  \<open>undo\<close> succeed before \<open>can_undo\<close> is false.
\<close>

theorem bounded_history_witness:
  "(let L = (\<lambda>s. Parsed);
        d1 = (new_document None ''a'')\<lparr>modified := True, edit_count := 1\<rparr>;
        d2 = (new_document None ''ab'')\<lparr>modified := True, edit_count := 2\<rparr>;
        d3 = (new_document None ''abc'')\<lparr>modified := True, edit_count := 3\<rparr>;
        d4 = (new_document None ''ab'')\<lparr>modified := True, edit_count := 4\<rparr>;
        d5 = (new_document None ''a'')\<lparr>modified := True, edit_count := 5\<rparr>;
        m1 = \<lparr>history = [InsertCommand 0 ''a'' True], current_index = 0, max_history = 2\<rparr>;
        m2 = \<lparr>history = [InsertCommand 0 ''a'' True, InsertCommand 1 ''b'' True],
              current_index = 1, max_history = 2\<rparr>;
        m3 = \<lparr>history = [InsertCommand 1 ''b'' True, InsertCommand 2 ''c'' True],
              current_index = 1, max_history = 2\<rparr>;
        m4 = \<lparr>history = [InsertCommand 1 ''b'' True, InsertCommand 2 ''c'' False],
              current_index = 0, max_history = 2\<rparr>;
        m5 = \<lparr>history = [InsertCommand 1 ''b'' False, InsertCommand 2 ''c'' False],
              current_index = - 1, max_history = 2\<rparr>
    in execute L (new_manager (Some 2)) (InsertCommand 0 ''a'' False) (new_document None [])
         = (True, m1, d1) \<and>
       execute L m1 (InsertCommand 1 ''b'' False) d1 = (True, m2, d2) \<and>
       execute L m2 (InsertCommand 2 ''c'' False) d2 = (True, m3, d3) \<and>
       undo L m3 d3 = (Inr True, m4, d4) \<and> can_undo m4 \<and>
       undo L m4 d4 = (Inr True, m5, d5) \<and> \<not> can_undo m5 \<and>
       undo L m5 d5 = (Inr False, m5, d5))"
proof -
  let ?L = "\<lambda>s::string. Parsed"
  let ?d1 = "(new_document None ''a'')\<lparr>modified := True, edit_count := 1\<rparr>"
  let ?d2 = "(new_document None ''ab'')\<lparr>modified := True, edit_count := 2\<rparr>"
  let ?d3 = "(new_document None ''abc'')\<lparr>modified := True, edit_count := 3\<rparr>"
  let ?d4 = "(new_document None ''ab'')\<lparr>modified := True, edit_count := 4\<rparr>"
  let ?d5 = "(new_document None ''a'')\<lparr>modified := True, edit_count := 5\<rparr>"
  let ?m1 = "\<lparr>history = [InsertCommand 0 ''a'' True], current_index = 0, max_history = 2\<rparr>"
  let ?m2 = "\<lparr>history = [InsertCommand 0 ''a'' True, InsertCommand 1 ''b'' True],
              current_index = 1, max_history = 2\<rparr>"
  let ?m3 = "\<lparr>history = [InsertCommand 1 ''b'' True, InsertCommand 2 ''c'' True],
              current_index = 1, max_history = 2\<rparr>"
  let ?m4 = "\<lparr>history = [InsertCommand 1 ''b'' True, InsertCommand 2 ''c'' False],
              current_index = 0, max_history = 2\<rparr>"
  let ?m5 = "\<lparr>history = [InsertCommand 1 ''b'' False, InsertCommand 2 ''c'' False],
              current_index = - 1, max_history = 2\<rparr>"
  have e1: "execute ?L (new_manager (Some 2)) (InsertCommand 0 ''a'' False) (new_document None [])
              = (True, ?m1, ?d1)"
    by (simp add: manager_eval doc_eval)
  have e2: "execute ?L ?m1 (InsertCommand 1 ''b'' False) ?d1 = (True, ?m2, ?d2)"
    by (simp add: manager_eval doc_eval)
  have e3: "execute ?L ?m2 (InsertCommand 2 ''c'' False) ?d2 = (True, ?m3, ?d3)"
    by (simp add: manager_eval doc_eval)
  from bounded_history [OF e1 e2 e3] obtain m4 d4 m5 d5 where
    u1: "undo ?L ?m3 ?d3 = (Inr True, m4, d4)" and c4: "can_undo m4"
    and u2: "undo ?L m4 d4 = (Inr True, m5, d5)" and c5: "\<not> can_undo m5"
    and u3: "undo ?L m5 d5 = (Inr False, m5, d5)"
    by blast
  have v1: "undo ?L ?m3 ?d3 = (Inr True, ?m4, ?d4)"
    by (simp add: manager_eval doc_eval)
  have v2: "undo ?L ?m4 ?d4 = (Inr True, ?m5, ?d5)"
    by (simp add: manager_eval doc_eval)
  have m4: "m4 = ?m4" "d4 = ?d4" using u1 v1 by simp_all
  have m5: "m5 = ?m5" "d5 = ?d5" using u2 v2 m4 by simp_all
  show ?thesis
    unfolding Let_def
    using e1 e2 e3 u1 u2 u3 c4 c5 unfolding m4 m5
    by (intro conjI)
qed


text \<open>
  C4 as stated fails in that scenario: after the one \<open>undo()\<close> that gives back \<open>ab\<close>
  the cursor is at the insert of \<open>b\<close>, and \<open>can_undo()\<close> is true, not false.
\<close>

theorem bounded_history_second_undo:
  "(let L = (\<lambda>s. Parsed);
        d1 = (new_document None ''a'')\<lparr>modified := True, edit_count := 1\<rparr>;
        d2 = (new_document None ''ab'')\<lparr>modified := True, edit_count := 2\<rparr>;
        d3 = (new_document None ''abc'')\<lparr>modified := True, edit_count := 3\<rparr>;
        d4 = (new_document None ''ab'')\<lparr>modified := True, edit_count := 4\<rparr>;
        m1 = \<lparr>history = [InsertCommand 0 ''a'' True], current_index = 0, max_history = 2\<rparr>;
        m2 = \<lparr>history = [InsertCommand 0 ''a'' True, InsertCommand 1 ''b'' True],
              current_index = 1, max_history = 2\<rparr>;
        m3 = \<lparr>history = [InsertCommand 1 ''b'' True, InsertCommand 2 ''c'' True],
              current_index = 1, max_history = 2\<rparr>;
        m4 = \<lparr>history = [InsertCommand 1 ''b'' True, InsertCommand 2 ''c'' False],
              current_index = 0, max_history = 2\<rparr>
    in execute L (new_manager (Some 2)) (InsertCommand 0 ''a'' False) (new_document None [])
         = (True, m1, d1) \<and>
       execute L m1 (InsertCommand 1 ''b'' False) d1 = (True, m2, d2) \<and>
       execute L m2 (InsertCommand 2 ''c'' False) d2 = (True, m3, d3) \<and>
       undo L m3 d3 = (Inr True, m4, d4) \<and>
       can_undo m4)"
  unfolding Let_def
  by (intro conjI) (simp_all add: manager_eval doc_eval)

section \<open>Rejected calls\<close>

text \<open>
  C5, as the code has it. A \<open>delete\<close> or \<open>get_text\<close> whose range violates
  \<open>0 \<le> start \<le> end \<le> length(content)\<close>, and an \<open>insert\<close> whose position is outside
  \<open>[0, length(content)]\<close>, raises and leaves the document exactly as it was: content,
  modified flag, edit counter and every other field, with no listener called (the
  record of deliveries is part of the unchanged document). The exception is the
  range error \<open>ValueError\<close>, except that \<open>insert\<close> and \<open>delete\<close> on a read-only document
  raise the read-only error \<open>RuntimeError\<close>, because they test the flag first.
\<close>

theorem range_rejection:
  "(start < 0 \<or> finish > int (length (content d)) \<or> start > finish \<longrightarrow>
      get_text d start finish = Inl ValueError \<and>
      delete_doc loads d start finish n
        = (Inl (if read_only d then RuntimeError else ValueError), d)) \<and>
   (position < 0 \<or> position > int (length (content d)) \<longrightarrow>
      insert_doc loads d position t n
        = (Inl (if read_only d then RuntimeError else ValueError), d))"
  by (simp add: get_text_def delete_doc_def insert_doc_def)

theorem range_rejection_witness:
  "get_text (new_document None ''abcdef'') 5 3 = Inl ValueError \<and>
   delete_doc (\<lambda>s. Parsed) (new_document None ''abcdef'') 5 3 True
     = (Inl ValueError, new_document None ''abcdef'') \<and>
   insert_doc (\<lambda>s. Parsed) (new_document None ''abcdef'') (- 1) ''x'' True
     = (Inl ValueError, new_document None ''abcdef'')"
  using range_rejection [where start = 5 and finish = 3 and d = "new_document None ''abcdef''"
      and loads = "\<lambda>s. Parsed" and n = True and position = "- 1" and t = "''x''"]
  by (simp add: new_document_def)

text \<open>
  C5 as stated fails on a read-only document: \<open>delete(5, 3)\<close> raises the read-only
  error there, not the range error.
\<close>

theorem range_rejection_read_only:
  "fst (delete_doc (\<lambda>s. Parsed) ((new_document None ''abcdef'')\<lparr>read_only := True\<rparr>) 5 3 True)
     = Inl RuntimeError \<and>
   fst (delete_doc (\<lambda>s. Parsed) ((new_document None ''abcdef'')\<lparr>read_only := True\<rparr>) 5 3 True)
     \<noteq> Inl ValueError"
  by (simp add: delete_doc_def new_document_def)

text \<open>
  C6, as the code has it. On a read-only document \<open>insert\<close>, \<open>delete\<close>, \<open>set_content\<close>
  and \<open>clear\<close> raise the read-only error and leave the document exactly as it was,
  with no listener called. \<open>load_from_file\<close>, \<open>mark_as_saved\<close> and \<open>reset\<close> do not test
  the flag. \<open>load_from_file\<close> returns normally, replaces path and content, clears
  the modified flag and sends \<open>loaded\<close> to the enabled listeners. \<open>mark_as_saved\<close>
  returns normally, takes a non-empty path, clears the modified flag, keeps the
  content and sends \<open>saved\<close> to the enabled listeners. \<open>reset\<close> tests only whether the
  document has a file: without one it returns normally, empties the content,
  clears the modified flag, the edit counter and the stored validation result and
  sends \<open>reset\<close> to the enabled listeners; with one it raises and changes nothing.
  The document stays read-only through all three.
\<close>

theorem read_only_rejection:
  "read_only d \<Longrightarrow>
     insert_doc loads d position t n = (Inl RuntimeError, d) \<and>
     delete_doc loads d start finish n = (Inl RuntimeError, d) \<and>
     set_content loads d new_content n = (Inl RuntimeError, d) \<and>
     clear loads d n = (Inl RuntimeError, d) \<and>
     fst (load_from_file loads d path new_content) = Inr () \<and>
     content (snd (load_from_file loads d path new_content)) = new_content \<and>
     filepath (snd (load_from_file loads d path new_content)) = Some path \<and>
     modified (snd (load_from_file loads d path new_content)) = False \<and>
     delivered (snd (load_from_file loads d path new_content)) =
       delivered d @ map (\<lambda>j. (j, ''loaded'', LoadedData path (int (length new_content))))
         (filter (\<lambda>j. enabled (observers d ! j)) [0..<length (observers d)]) \<and>
     fst (mark_as_saved loads d saved_path) = Inr () \<and>
     modified (snd (mark_as_saved loads d saved_path)) = False \<and>
     content (snd (mark_as_saved loads d saved_path)) = content d \<and>
     filepath (snd (mark_as_saved loads d saved_path)) =
       (case saved_path of None \<Rightarrow> filepath d
        | Some p \<Rightarrow> if p = [] then filepath d else Some p) \<and>
     delivered (snd (mark_as_saved loads d saved_path)) =
       delivered d @ map (\<lambda>j. (j, ''saved'',
           SavedData (case saved_path of None \<Rightarrow> filepath d
                      | Some p \<Rightarrow> if p = [] then filepath d else Some p)
             (int (length (content d)))))
         (filter (\<lambda>j. enabled (observers d ! j)) [0..<length (observers d)]) \<and>
     (filepath d = None \<longrightarrow>
        fst (reset loads d) = Inr () \<and>
        content (snd (reset loads d)) = [] \<and>
        modified (snd (reset loads d)) = False \<and>
        edit_count (snd (reset loads d)) = 0 \<and>
        last_validation_result (snd (reset loads d)) = None \<and>
        delivered (snd (reset loads d)) =
          delivered d @ map (\<lambda>j. (j, ''reset'', EmptyData))
            (filter (\<lambda>j. enabled (observers d ! j)) [0..<length (observers d)])) \<and>
     (filepath d \<noteq> None \<longrightarrow> reset loads d = (Inl RuntimeError, d)) \<and>
     read_only (snd (load_from_file loads d path new_content)) \<and>
     read_only (snd (mark_as_saved loads d saved_path)) \<and>
     read_only (snd (reset loads d))"
proof -
  assume ro: "read_only d"
  have a: "insert_doc loads d position t n = (Inl RuntimeError, d) \<and>
     delete_doc loads d start finish n = (Inl RuntimeError, d) \<and>
     set_content loads d new_content n = (Inl RuntimeError, d) \<and>
     clear loads d n = (Inl RuntimeError, d)"
    using ro by (simp add: insert_doc_def delete_doc_def set_content_def clear_def)
  have b: "fst (load_from_file loads d path new_content) = Inr () \<and>
     content (snd (load_from_file loads d path new_content)) = new_content \<and>
     filepath (snd (load_from_file loads d path new_content)) = Some path \<and>
     modified (snd (load_from_file loads d path new_content)) = False \<and>
     delivered (snd (load_from_file loads d path new_content)) =
       delivered d @ map (\<lambda>j. (j, ''loaded'', LoadedData path (int (length new_content))))
         (filter (\<lambda>j. enabled (observers d ! j)) [0..<length (observers d)]) \<and>
     read_only (snd (load_from_file loads d path new_content))"
    using ro by (simp add: load_from_file_def notify_frame notify_delivered Let_def)
  have c: "fst (mark_as_saved loads d saved_path) = Inr () \<and>
     modified (snd (mark_as_saved loads d saved_path)) = False \<and>
     content (snd (mark_as_saved loads d saved_path)) = content d \<and>
     filepath (snd (mark_as_saved loads d saved_path)) =
       (case saved_path of None \<Rightarrow> filepath d
        | Some p \<Rightarrow> if p = [] then filepath d else Some p) \<and>
     delivered (snd (mark_as_saved loads d saved_path)) =
       delivered d @ map (\<lambda>j. (j, ''saved'',
           SavedData (case saved_path of None \<Rightarrow> filepath d
                      | Some p \<Rightarrow> if p = [] then filepath d else Some p)
             (int (length (content d)))))
         (filter (\<lambda>j. enabled (observers d ! j)) [0..<length (observers d)]) \<and>
     read_only (snd (mark_as_saved loads d saved_path))"
    using ro
    by (simp add: mark_as_saved_def notify_frame notify_delivered Let_def split: option.splits)
  have e: "filepath d = None \<longrightarrow>
        fst (reset loads d) = Inr () \<and>
        content (snd (reset loads d)) = [] \<and>
        modified (snd (reset loads d)) = False \<and>
        edit_count (snd (reset loads d)) = 0 \<and>
        last_validation_result (snd (reset loads d)) = None \<and>
        delivered (snd (reset loads d)) =
          delivered d @ map (\<lambda>j. (j, ''reset'', EmptyData))
            (filter (\<lambda>j. enabled (observers d ! j)) [0..<length (observers d)])"
    by (simp add: reset_def is_new_def notify_frame notify_delivered notify_other_event Let_def)
  have f: "filepath d \<noteq> None \<longrightarrow> reset loads d = (Inl RuntimeError, d)"
    by (simp add: reset_def is_new_def)
  have g: "read_only (snd (reset loads d))"
    using ro by (simp add: reset_def is_new_def notify_frame Let_def)
  from a b c e f g show ?thesis by blast
qed

text \<open>
  A read-only document without a file, with content \<open>abc\<close> and one listener: the
  four editing calls are refused, the other three go through and notify it.
\<close>

theorem read_only_rejection_witness:
  "(let L = (\<lambda>s. Parsed);
        d = \<lparr>filepath = None, content = ''abc'', modified = True, read_only = True,
             edit_count = 3, last_validation_result = None,
             observers = [\<lparr>name = ''StatusObserver'', enabled = True,
                           impl = Other (\<lambda>c e x. False)\<rparr>],
             delivered = []\<rparr>
    in read_only d \<and> filepath d = None \<and>
       insert_doc L d 1 ''x'' True = (Inl RuntimeError, d) \<and>
       delete_doc L d 0 2 True = (Inl RuntimeError, d) \<and>
       set_content L d ''{}'' True = (Inl RuntimeError, d) \<and>
       clear L d True = (Inl RuntimeError, d) \<and>
       load_from_file L d ''f.json'' ''{}''
         = (Inr (), d\<lparr>filepath := Some ''f.json'', content := ''{}'', modified := False,
                       delivered := [(0, ''loaded'', LoadedData ''f.json'' 2)]\<rparr>) \<and>
       mark_as_saved L d (Some ''g.json'')
         = (Inr (), d\<lparr>filepath := Some ''g.json'', modified := False,
                       delivered := [(0, ''saved'', SavedData (Some ''g.json'') 3)]\<rparr>) \<and>
       reset L d
         = (Inr (), d\<lparr>content := [], modified := False, edit_count := 0,
                       delivered := [(0, ''reset'', EmptyData)]\<rparr>))"
proof -
  let ?L = "\<lambda>s::string. Parsed"
  let ?d = "\<lparr>filepath = None, content = ''abc'', modified = True, read_only = True,
             edit_count = 3, last_validation_result = None,
             observers = [\<lparr>name = ''StatusObserver'', enabled = True,
                           impl = Other (\<lambda>c e x. False)\<rparr>],
             delivered = []\<rparr>"
  have ro: "read_only ?d" by simp
  note T = read_only_rejection [OF ro, where loads = ?L and position = 1 and t = "''x''"
      and n = True and start = 0 and finish = 2 and new_content = "''{}''"]
  have a: "insert_doc ?L ?d 1 ''x'' True = (Inl RuntimeError, ?d) \<and>
       delete_doc ?L ?d 0 2 True = (Inl RuntimeError, ?d) \<and>
       set_content ?L ?d ''{}'' True = (Inl RuntimeError, ?d) \<and>
       clear ?L ?d True = (Inl RuntimeError, ?d)"
    using T by blast
  have b: "load_from_file ?L ?d ''f.json'' ''{}''
         = (Inr (), ?d\<lparr>filepath := Some ''f.json'', content := ''{}'', modified := False,
                       delivered := [(0, ''loaded'', LoadedData ''f.json'' 2)]\<rparr>)"
    by (simp add: load_from_file_def notify_def update_def)
  have c: "mark_as_saved ?L ?d (Some ''g.json'')
         = (Inr (), ?d\<lparr>filepath := Some ''g.json'', modified := False,
                       delivered := [(0, ''saved'', SavedData (Some ''g.json'') 3)]\<rparr>)"
    by (simp add: mark_as_saved_def notify_def update_def)
  have e: "reset ?L ?d
         = (Inr (), ?d\<lparr>content := [], modified := False, edit_count := 0,
                       delivered := [(0, ''reset'', EmptyData)]\<rparr>)"
    by (simp add: reset_def is_new_def notify_def update_def)
  show ?thesis unfolding Let_def using ro a b c e by simp
qed

text \<open>
  C6 as stated fails for \<open>load_from_file\<close>: on a read-only document it returns
  normally and the content is the loaded text.
\<close>

theorem read_only_load_from_file:
  "fst (load_from_file (\<lambda>s. Parsed) ((new_document None ''abc'')\<lparr>read_only := True\<rparr>)
          ''f.json'' ''{}'') = Inr () \<and>
   content (snd (load_from_file (\<lambda>s. Parsed) ((new_document None ''abc'')\<lparr>read_only := True\<rparr>)
          ''f.json'' ''{}'')) = ''{}'' \<and>
   content ((new_document None ''abc'')\<lparr>read_only := True\<rparr>) = ''abc''"
  by (simp add: load_from_file_def new_document_def notify_def)

section \<open>The edit counter\<close>

text \<open>
  C7, as the code has it. The edit counter goes up by exactly one on every
  \<open>insert\<close>, \<open>delete\<close>, \<open>set_content\<close> and \<open>clear\<close> that succeeds and stays as it is when
  one of them raises. So the \<open>execute\<close> and the \<open>undo\<close> of an \<open>InsertCommand\<close> or
  \<open>DeleteCommand\<close> raise it by exactly one when they return \<open>True\<close> and leave it when
  they return \<open>False\<close>, and those of any command that returns \<open>True\<close>, a composite
  included, raise it by the number of primitive commands in it; no \<open>execute\<close> or
  \<open>undo\<close> lowers it. \<open>load_from_file\<close> and \<open>mark_as_saved\<close> leave it as it is;
  \<open>reset\<close>, when it succeeds, sets it to 0. So it never decreases across a sequence
  of document operations, executed commands and undone commands in which \<open>reset\<close>
  does not occur.
\<close>

theorem edit_count_steps:
  "edit_count (snd (insert_doc loads d position t n))
     = (if fst (insert_doc loads d position t n) = Inr () then edit_count d + 1 else edit_count d) \<and>
   edit_count (snd (delete_doc loads d start finish n))
     = (if fst (delete_doc loads d start finish n) = Inr () then edit_count d + 1 else edit_count d) \<and>
   edit_count (snd (set_content loads d c n))
     = (if fst (set_content loads d c n) = Inr () then edit_count d + 1 else edit_count d) \<and>
   edit_count (snd (clear loads d n))
     = (if fst (clear loads d n) = Inr () then edit_count d + 1 else edit_count d) \<and>
   edit_count (snd (load_from_file loads d path c)) = edit_count d \<and>
   edit_count (snd (mark_as_saved loads d saved_path)) = edit_count d \<and>
   edit_count (snd (reset loads d)) = (if fst (reset loads d) = Inr () then 0 else edit_count d) \<and>
   edit_count (snd (snd (command_execute loads (InsertCommand position t executed) d)))
     = (if fst (command_execute loads (InsertCommand position t executed) d)
        then edit_count d + 1 else edit_count d) \<and>
   edit_count (snd (snd (command_undo loads (InsertCommand position t executed) d)))
     = (if fst (command_undo loads (InsertCommand position t executed) d)
        then edit_count d + 1 else edit_count d) \<and>
   edit_count (snd (snd (command_execute loads (DeleteCommand start finish deleted executed) d)))
     = (if fst (command_execute loads (DeleteCommand start finish deleted executed) d)
        then edit_count d + 1 else edit_count d) \<and>
   edit_count (snd (snd (command_undo loads (DeleteCommand start finish deleted executed) d)))
     = (if fst (command_undo loads (DeleteCommand start finish deleted executed) d)
        then edit_count d + 1 else edit_count d) \<and>
   (fst (command_execute loads cmd d) \<longrightarrow>
      edit_count (snd (snd (command_execute loads cmd d)))
        = edit_count d + int (primitive_commands cmd)) \<and>
   (fst (command_undo loads cmd d) \<longrightarrow>
      edit_count (snd (snd (command_undo loads cmd d)))
        = edit_count d + int (primitive_commands cmd)) \<and>
   edit_count d \<le> edit_count (snd (snd (command_execute loads cmd d))) \<and>
   edit_count d \<le> edit_count (snd (snd (command_undo loads cmd d))) \<and>
   (Reset \<notin> set xs \<longrightarrow> edit_count d \<le> edit_count (apply_operations loads xs d))"
proof -
  have l: "edit_count (snd (load_from_file loads d path c)) = edit_count d"
    by (simp add: load_from_file_def Let_def notify_frame)
  have s: "edit_count (snd (mark_as_saved loads d saved_path)) = edit_count d"
    by (simp add: mark_as_saved_def Let_def notify_frame split: option.splits)
  have r: "edit_count (snd (reset loads d)) = (if fst (reset loads d) = Inr () then 0 else edit_count d)"
    by (simp add: reset_def Let_def notify_frame)
  have c: "edit_count (snd (clear loads d n))
     = (if fst (clear loads d n) = Inr () then edit_count d + 1 else edit_count d)"
    unfolding clear_def by (rule set_content_edit_count)
  note p = primitive_edit_count(1,2)[where loads = loads and d = d and position = position and t = t and executed = executed]
    primitive_edit_count(3,4)[where loads = loads and d = d and start = start and finish = finish and deleted = deleted and executed = executed]
  show ?thesis
    using l s r c p insert_doc_edit_count[of loads d position t n]
      delete_doc_edit_count[of loads d start finish n] set_content_edit_count[of loads d c n]
      apply_operations_mono[of xs d loads]
      command_edit_count_exact(1)[of loads cmd d] undo_edit_count_exact(1)[of loads cmd d]
      command_edit_count_mono(1)[of d loads cmd] undo_edit_count_mono(1)[of d loads cmd]
    by blast
qed

text \<open>
  A sequence without \<open>reset\<close>, with a rejected delete, a load and an undo in it; a
  composite of two inserts, which raises the counter by 2; and the undo of an
  insert, which raises it by 1.
\<close>

theorem edit_count_steps_witness:
  "Reset \<notin> set [Insert 0 ''{}'' True, Delete 5 3 True, LoadFromFile ''f.json'' ''[1]'',
                 Execute (DeleteCommand 0 1 [] False), Undo (InsertCommand 0 ''[1'' True),
                 MarkAsSaved None] \<and>
   edit_count (new_document None [])
     \<le> edit_count (apply_operations (\<lambda>s. Parsed)
          [Insert 0 ''{}'' True, Delete 5 3 True, LoadFromFile ''f.json'' ''[1]'',
           Execute (DeleteCommand 0 1 [] False), Undo (InsertCommand 0 ''[1'' True),
           MarkAsSaved None] (new_document None [])) \<and>
   fst (command_execute (\<lambda>s. Parsed)
          (CompositeCommand [InsertCommand 0 ''{'' False, InsertCommand 1 ''}'' False] False)
          (new_document None [])) \<and>
   primitive_commands
     (CompositeCommand [InsertCommand 0 ''{'' False, InsertCommand 1 ''}'' False] False) = 2 \<and>
   edit_count (snd (snd (command_execute (\<lambda>s. Parsed)
          (CompositeCommand [InsertCommand 0 ''{'' False, InsertCommand 1 ''}'' False] False)
          (new_document None []))))
     = edit_count (new_document None []) + 2 \<and>
   fst (command_undo (\<lambda>s. Parsed) (InsertCommand 0 ''{'' True) (new_document None ''{}'')) \<and>
   edit_count (snd (snd (command_undo (\<lambda>s. Parsed) (InsertCommand 0 ''{'' True)
          (new_document None ''{}''))))
     = edit_count (new_document None ''{}'') + 1"
proof -
  let ?L = "\<lambda>s::string. Parsed"
  let ?xs = "[Insert 0 ''{}'' True, Delete 5 3 True, LoadFromFile ''f.json'' ''[1]'',
           Execute (DeleteCommand 0 1 [] False), Undo (InsertCommand 0 ''[1'' True),
           MarkAsSaved None]"
  let ?c = "CompositeCommand [InsertCommand 0 ''{'' False, InsertCommand 1 ''}'' False] False"
  have f1: "fst (command_execute ?L ?c (new_document None []))"
    by (simp add: doc_eval)
  have f2: "fst (command_undo ?L (InsertCommand 0 ''{'' True) (new_document None ''{}''))"
    by (simp add: doc_eval)
  note T1 = edit_count_steps [where d = "new_document None []" and loads = ?L and xs = ?xs
      and cmd = ?c]
  note T2 = edit_count_steps [where d = "new_document None ''{}''" and loads = ?L
      and cmd = "InsertCommand 0 ''{'' True"]
  have a: "edit_count (new_document None []) \<le> edit_count (apply_operations ?L ?xs (new_document None []))"
    using T1 by simp
  have b: "edit_count (snd (snd (command_execute ?L ?c (new_document None []))))
     = edit_count (new_document None []) + 2"
    using T1 f1 by simp
  have c: "edit_count (snd (snd (command_undo ?L (InsertCommand 0 ''{'' True)
          (new_document None ''{}''))))
     = edit_count (new_document None ''{}'') + 1"
    using T2 f2 by simp
  show ?thesis using a b c f1 f2 by simp
qed

text \<open>
  C7 as stated fails for \<open>reset\<close>: after one insert into a new document the counter
  is 1, and \<open>reset\<close> on that document succeeds and leaves it at 0.
\<close>

theorem edit_count_reset:
  "fst (insert_doc (\<lambda>s. Parsed) (new_document None []) 0 ''{}'' True) = Inr () \<and>
   edit_count (snd (insert_doc (\<lambda>s. Parsed) (new_document None []) 0 ''{}'' True)) = 1 \<and>
   fst (reset (\<lambda>s. Parsed)
          ((new_document None ''{}'')\<lparr>modified := True, edit_count := 1\<rparr>)) = Inr () \<and>
   edit_count (snd (reset (\<lambda>s. Parsed)
          ((new_document None ''{}'')\<lparr>modified := True, edit_count := 1\<rparr>))) = 0 \<and>
   snd (insert_doc (\<lambda>s. Parsed) (new_document None []) 0 ''{}'' True)
     = (new_document None ''{}'')\<lparr>modified := True, edit_count := 1\<rparr>"
  by (simp add: doc_eval)


section \<open>Listeners\<close>



section \<open>The validation run\<close>

text \<open>
  C9, as the code has it. A validation run looks at the content with the
  surrounding whitespace stripped. If nothing is left (the empty content, or
  whitespace alone) the result is valid with the message that the document is
  empty. Otherwise the stripped text goes to the parser: when it parses the result
  is valid; when the parser raises \<open>JSONDecodeError\<close> the result is invalid and
  carries the parser's line, column and message; when it raises anything else the
  result is invalid and carries that exception's text. The result is stored in the
  listener and replaces the last validation result of the document, whatever it
  was, and this is what a \<open>content_changed\<close> event does through an auto-validating
  \<open>ValidatorObserver\<close>.
\<close>

theorem validation_result_written:
  "(case validate loads v d of
      (r, v', d') \<Rightarrow>
        d' = d\<lparr>last_validation_result := Some r\<rparr> \<and>
        last_result v' = Some r \<and> validation_count v' = validation_count v + 1 \<and>
        (content d = [] \<longrightarrow> is_valid r \<and> message r = DocumentEmpty \<and> errors r = []) \<and>
        (strip (content d) = [] \<longrightarrow> is_valid r \<and> message r = DocumentEmpty \<and> errors r = []) \<and>
        (strip (content d) \<noteq> [] \<longrightarrow>
           (case loads (strip (content d)) of
              Parsed \<Rightarrow> is_valid r \<and> message r = SyntaxCorrect \<and> errors r = []
            | JSONDecodeError msg lineno colno pos \<Rightarrow>
                \<not> is_valid r \<and> message r = JsonErrorAt lineno colno \<and>
                errors r = [DecodeError lineno colno msg pos]
            | OtherException e \<Rightarrow>
                \<not> is_valid r \<and> message r = ValidationError e \<and> errors r = [PlainError e]))) \<and>
   (impl ob = Validator v \<and> auto_validate v \<longrightarrow>
      last_validation_result (snd (snd (update loads ob d ''content_changed'' data)))
        = Some (fst (validate loads v d)))"
  by (auto simp: validate_def update_def set_validation_result_def Let_def strip_Nil
      split: loads_outcome.splits prod.splits)


text \<open>
  A parser that accepts \<open>{}\<close> and rejects every other text at line 1, column 2:
  \<open>{}\<close> between blanks is valid, \<open>{a\<close> is invalid with that line and column, the
  empty content is valid, and each result replaces the one stored before.
\<close>

theorem validation_result_written_witness:
  "(let L = (\<lambda>s. if s = ''{}'' then Parsed else JSONDecodeError ''Expecting value'' 1 2 1);
        v = \<lparr>auto_validate = True, last_result = None, validation_count = 0\<rparr>;
        old = Some \<lparr>is_valid = True, message = SyntaxCorrect, errors = []\<rparr>
    in strip '' {} '' = ''{}'' \<and> strip ''{a'' = ''{a'' \<and>
       last_validation_result
         (snd (snd (validate L v ((new_document None '' {} '')\<lparr>last_validation_result := old\<rparr>))))
         = Some \<lparr>is_valid = True, message = SyntaxCorrect, errors = []\<rparr> \<and>
       last_validation_result
         (snd (snd (validate L v ((new_document None ''{a'')\<lparr>last_validation_result := old\<rparr>))))
         = Some \<lparr>is_valid = False, message = JsonErrorAt 1 2,
                  errors = [DecodeError 1 2 ''Expecting value'' 1]\<rparr> \<and>
       last_validation_result
         (snd (snd (validate L v ((new_document None [])\<lparr>last_validation_result := old\<rparr>))))
         = Some \<lparr>is_valid = True, message = DocumentEmpty, errors = []\<rparr>)"
  using validation_result_written [where loads = "\<lambda>s. if s = ''{}'' then Parsed else JSONDecodeError ''Expecting value'' 1 2 1"
      and v = "\<lparr>auto_validate = True, last_result = None, validation_count = 0\<rparr>"
      and d = "(new_document None ''{a'')\<lparr>last_validation_result := Some \<lparr>is_valid = True, message = SyntaxCorrect, errors = []\<rparr>\<rparr>"]
  by (simp add: validate_def set_validation_result_def new_document_def strip_def isspace_def Let_def)


text \<open>
  C9 as stated fails for a content of one blank. \<open>json.loads\<close> rejects that text
  (\<open>Expecting value\<close>, line 1, column 2), so it is a content that fails to parse;
  the run never asks the parser and reports the document valid and empty. The
  parser here rejects every text, as \<open>json.loads\<close> does this one.
\<close>

theorem blank_content_counted_valid:
  "content (new_document None '' '') = '' '' \<and>
   fst (validate (\<lambda>s. JSONDecodeError ''Expecting value'' 1 2 1)
          \<lparr>auto_validate = True, last_result = None, validation_count = 0\<rparr>
          (new_document None '' ''))
     = \<lparr>is_valid = True, message = DocumentEmpty, errors = []\<rparr>"
  by (simp add: validate_def set_validation_result_def new_document_def strip_def isspace_def Let_def)

section \<open>The invariant is kept\<close>

text \<open>
  C10. A manager built with a maximum history of at least 1 (or with the
  configured default) satisfies \<open>-1 \<le> current_index \<le> length(history) - 1\<close> and
  \<open>length(history) \<le> max_history\<close>, and \<open>execute\<close>, \<open>undo\<close>, \<open>redo\<close> and \<open>clear_history\<close>
  keep both, with the bound unchanged, whatever the command involved returns.
  Under the invariant no subscript of \<open>undo\<close> or \<open>redo\<close> raises.
\<close>

theorem manager_invariant:
  "(1 \<le> k \<longrightarrow> history_invariant (new_manager (Some k)) \<and> max_history (new_manager (Some k)) = k) \<and>
   history_invariant (new_manager None) \<and>
   (history_invariant m \<longrightarrow>
      history_invariant (fst (snd (execute loads m c d))) \<and>
      max_history (fst (snd (execute loads m c d))) = max_history m \<and>
      history_invariant (fst (snd (undo loads m d))) \<and>
      max_history (fst (snd (undo loads m d))) = max_history m \<and>
      fst (undo loads m d) \<noteq> Inl IndexError \<and>
      history_invariant (fst (snd (redo loads m d))) \<and>
      max_history (fst (snd (redo loads m d))) = max_history m \<and>
      fst (redo loads m d) \<noteq> Inl IndexError \<and>
      history_invariant (clear_history m) \<and>
      max_history (clear_history m) = max_history m)"
proof -
  have a: "1 \<le> k \<longrightarrow> history_invariant (new_manager (Some k)) \<and> max_history (new_manager (Some k)) = k"
    by (simp add: new_manager_def history_invariant_def)
  have b: "history_invariant (new_manager None)"
    by (simp add: new_manager_def history_invariant_def MAX_UNDO_HISTORY_def)
  have c: "history_invariant m \<longrightarrow> history_invariant (clear_history m) \<and>
      max_history (clear_history m) = max_history m"
    by (auto simp: clear_history_def history_invariant_def)
  show ?thesis
    using a b c execute_invariant[of m loads c d] undo_invariant[of m loads d]
      redo_invariant[of m loads d]
    by blast
qed

text \<open>
  A manager with maximum history 2: the invariant holds when it is built, after an
  insert that succeeds, after one that fails (position 5 in an empty document),
  and after \<open>undo\<close>, \<open>redo\<close> and \<open>clear_history\<close>.
\<close>

theorem manager_invariant_witness:
  "(1::int) \<le> 2 \<and> history_invariant (new_manager (Some 2)) \<and>
   (let m = new_manager (Some 2); d = new_document None [];
        e = execute (\<lambda>s. Parsed) m (InsertCommand 0 ''a'' False) d;
        f = execute (\<lambda>s. Parsed) m (InsertCommand 5 ''a'' False) d
    in fst e \<and> history_invariant (fst (snd e)) \<and> current_index (fst (snd e)) = 0 \<and>
       \<not> fst f \<and> history_invariant (fst (snd f)) \<and>
       history_invariant (fst (snd (undo (\<lambda>s. Parsed) m d))) \<and>
       history_invariant (fst (snd (redo (\<lambda>s. Parsed) m d))) \<and>
       history_invariant (clear_history m))"
  using manager_invariant [where k = 2 and m = "new_manager (Some 2)" and loads = "\<lambda>s. Parsed"
      and c = "InsertCommand 0 ''a'' False" and d = "new_document None []"]
    manager_invariant [where k = 2 and m = "new_manager (Some 2)" and loads = "\<lambda>s. Parsed"
      and c = "InsertCommand 5 ''a'' False" and d = "new_document None []"]
  by (simp add: manager_eval doc_eval)

end
